theory Spec2Isabelle
  imports Complex_Main "HOL-Library.Word"
begin

section \<open>The NVML bindings, as the collector sees them\<close>

text \<open>
  \<^verbatim>\<open>nvml.Return\<close> is a 32-bit status code and \<^verbatim>\<open>nvml.SUCCESS\<close> is its zero.
  Every call of the library hands back a value together with such a code; the
  collector only ever compares the code with \<^verbatim>\<open>nvml.SUCCESS\<close>.
\<close>

type_synonym Return = "32 word"

definition SUCCESS :: Return where
  "SUCCESS = 0"

type_synonym TemperatureSensors = "32 word"

definition TEMPERATURE_GPU :: TemperatureSensors where
  "TEMPERATURE_GPU = 0"

record Utilization =
  Gpu :: "32 word"
  Memory :: "32 word"

record MemoryInfo =
  Total :: "64 word"
  Free :: "64 word"
  Used :: "64 word"

text \<open>
  A device handle is an object with methods. The library is a collaborator whose
  answers are not under the collector's control, so a handle is the record of
  what its methods answer during one scrape, and the library is the record of
  what its package-level functions answer. Go's \<^verbatim>\<open>int\<close> (device count, loop
  index) is read as a mathematical integer: the loop index never exceeds the
  count, so no arithmetic on it can wrap.
\<close>

record Device =
  GetName :: "string \<times> Return"
  GetUtilizationRates :: "Utilization \<times> Return"
  GetTemperature :: "TemperatureSensors \<Rightarrow> 32 word \<times> Return"
  GetMemoryInfo :: "MemoryInfo \<times> Return"

record nvml =
  Init :: Return
  DeviceGetCount :: "int \<times> Return"
  DeviceGetHandleByIndex :: "int \<Rightarrow> Device \<times> Return"

text \<open>The calls made into the library, in the order they are made.\<close>

datatype nvml_call =
    CallInit
  | CallDeviceGetCount
  | CallDeviceGetHandleByIndex int
  | CallGetName int
  | CallGetUtilizationRates int
  | CallGetTemperature int TemperatureSensors
  | CallGetMemoryInfo int

section \<open>Go conversions used by the collector\<close>

subsection \<open>\<^verbatim>\<open>strconv.Itoa\<close>\<close>

definition digit_char :: "nat \<Rightarrow> char" where
  "digit_char d = ''0123456789'' ! d"

fun digits_of :: "nat \<Rightarrow> string" where
  "digits_of n =
     (if n < 10 then [digit_char n]
      else digits_of (n div 10) @ [digit_char (n mod 10)])"

declare digits_of.simps [simp del]

definition Itoa :: "int \<Rightarrow> string" where
  "Itoa i = (if i < 0 then CHR ''-'' # digits_of (nat (- i)) else digits_of (nat i))"

text \<open>Reading a decimal numeral back, to say what ``stringified in decimal'' means.\<close>

definition digit_val :: "char \<Rightarrow> nat" where
  "digit_val c = of_char c - 48"

definition is_digit :: "char \<Rightarrow> bool" where
  "is_digit c = (c \<in> set ''0123456789'')"

definition numeral_value :: "string \<Rightarrow> nat" where
  "numeral_value s = foldl (\<lambda>a c. 10 * a + digit_val c) 0 s"

definition Atoi :: "string \<Rightarrow> int" where
  "Atoi s = (case s of
               [] \<Rightarrow> 0
             | c # r \<Rightarrow> if c = CHR ''-'' then - int (numeral_value r)
                        else int (numeral_value s))"

definition decimal_of :: "string \<Rightarrow> int \<Rightarrow> bool" where
  "decimal_of s i =
     (s \<noteq> [] \<and> list_all is_digit s \<and> (hd s = CHR ''0'' \<longrightarrow> s = ''0'') \<and>
      int (numeral_value s) = i)"

subsection \<open>\<^verbatim>\<open>float64(x)\<close> on unsigned integers\<close>

text \<open>
  A \<^verbatim>\<open>float64\<close> is carried as the real number it denotes. Every 32-bit
  unsigned value is a \<^verbatim>\<open>float64\<close>; a 64-bit one is rounded to 53 significant
  bits, ties to even.
\<close>

type_synonym float64 = real

fun excess_bits :: "nat \<Rightarrow> nat" where
  "excess_bits n = (if n < 2 ^ 53 then 0 else Suc (excess_bits (n div 2)))"

declare excess_bits.simps [simp del]

definition round53 :: "nat \<Rightarrow> nat" where
  "round53 n =
     (let e = excess_bits n; q = n div 2 ^ e; r = n mod 2 ^ e
      in if e = 0 then n
         else if 2 ^ (e - 1) < r \<or> (r = 2 ^ (e - 1) \<and> odd q) then (q + 1) * 2 ^ e
         else q * 2 ^ e)"

definition float64_of_uint32 :: "32 word \<Rightarrow> float64" where
  "float64_of_uint32 w = real (unat w)"

definition float64_of_uint64 :: "64 word \<Rightarrow> float64" where
  "float64_of_uint64 w = real (round53 (unat w))"

subsection \<open>\<^verbatim>\<open>utf8.ValidString\<close>\<close>

text \<open>
  A string is a sequence of bytes. The scan below accepts exactly the
  well-formed UTF-8 sequences: after a lead byte it expects the given number of
  continuation bytes, the first of them within the range the lead byte allows
  (which excludes overlong forms, surrogates and values above U+10FFFF).
\<close>

definition utf8_step :: "nat \<times> nat \<times> nat \<Rightarrow> nat \<Rightarrow> (nat \<times> nat \<times> nat) option" where
  "utf8_step s b =
     (case s of (need, lo, hi) \<Rightarrow>
        if need = 0 then
          (if b < 0x80 then Some (0, 0x80, 0xBF)
           else if 0xC2 \<le> b \<and> b \<le> 0xDF then Some (1, 0x80, 0xBF)
           else if b = 0xE0 then Some (2, 0xA0, 0xBF)
           else if b = 0xED then Some (2, 0x80, 0x9F)
           else if 0xE1 \<le> b \<and> b \<le> 0xEF then Some (2, 0x80, 0xBF)
           else if b = 0xF0 then Some (3, 0x90, 0xBF)
           else if b = 0xF4 then Some (3, 0x80, 0x8F)
           else if 0xF1 \<le> b \<and> b \<le> 0xF3 then Some (3, 0x80, 0xBF)
           else None)
        else if lo \<le> b \<and> b \<le> hi then Some (need - 1, 0x80, 0xBF)
        else None)"

primrec utf8_scan :: "nat \<times> nat \<times> nat \<Rightarrow> nat list \<Rightarrow> bool" where
  "utf8_scan s [] = (fst s = 0)"
| "utf8_scan s (b # bs) =
     (case utf8_step s b of None \<Rightarrow> False | Some s' \<Rightarrow> utf8_scan s' bs)"

definition ValidString :: "string \<Rightarrow> bool" where
  "ValidString s = utf8_scan (0, 0x80, 0xBF) (map of_char s)"

section \<open>The Prometheus client, as the collector uses it\<close>

subsection \<open>Names\<close>

text \<open>
  The client checks metric and label names under a validation scheme, a
  setting of the client and not of the collector: the legacy scheme admits
  letters, digits, underscores (and colons in metric names), no digit first;
  the UTF-8 scheme admits every non-empty well-formed UTF-8 string. Label
  names starting with two underscores are reserved.
\<close>

datatype NameValidationScheme = LegacyValidation | UTF8Validation

definition is_letter :: "char \<Rightarrow> bool" where
  "is_letter c =
     (let n = (of_char c :: nat) in (65 \<le> n \<and> n \<le> 90) \<or> (97 \<le> n \<and> n \<le> 122))"

definition IsValidLegacyMetricName :: "string \<Rightarrow> bool" where
  "IsValidLegacyMetricName n =
     (case n of
        [] \<Rightarrow> False
      | c # r \<Rightarrow>
          (is_letter c \<or> c = CHR ''_'' \<or> c = CHR '':'') \<and>
          list_all (\<lambda>c. is_letter c \<or> c = CHR ''_'' \<or> c = CHR '':'' \<or> is_digit c) r)"

definition IsValidMetricName :: "NameValidationScheme \<Rightarrow> string \<Rightarrow> bool" where
  "IsValidMetricName scheme n =
     (case scheme of
        LegacyValidation \<Rightarrow> IsValidLegacyMetricName n
      | UTF8Validation \<Rightarrow> n \<noteq> [] \<and> ValidString n)"

definition IsValidLabelName :: "NameValidationScheme \<Rightarrow> string \<Rightarrow> bool" where
  "IsValidLabelName scheme l =
     (case scheme of
        LegacyValidation \<Rightarrow>
          (case l of
             [] \<Rightarrow> False
           | c # r \<Rightarrow>
               (is_letter c \<or> c = CHR ''_'') \<and>
               list_all (\<lambda>c. is_letter c \<or> c = CHR ''_'' \<or> is_digit c) r)
      | UTF8Validation \<Rightarrow> l \<noteq> [] \<and> ValidString l)"

definition checkLabelName :: "NameValidationScheme \<Rightarrow> string \<Rightarrow> bool" where
  "checkLabelName scheme l = (IsValidLabelName scheme l \<and> take 2 l \<noteq> ''__'')"

definition BuildFQName :: "string \<Rightarrow> string \<Rightarrow> string \<Rightarrow> string" where
  "BuildFQName nspace subsystem name =
     (if name = [] then []
      else (if nspace \<noteq> [] then nspace @ ''_'' else []) @
           (if subsystem \<noteq> [] then subsystem @ ''_'' else []) @ name)"

subsection \<open>Descriptors\<close>

text \<open>
  \<^verbatim>\<open>NewDesc\<close> never fails; it records in the descriptor the first complaint it
  has: about the metric name, a constant label name, text that is not valid
  UTF-8 in the name or in a constant label value, a variable label name, or a
  label name occurring twice.
\<close>

record Desc =
  fqName :: string
  helpText :: string
  variableLabels :: "string list"
  constLabels :: "(string \<times> string) list"
  err :: "string option"

definition NewDesc ::
  "NameValidationScheme \<Rightarrow> string \<Rightarrow> string \<Rightarrow> string list \<Rightarrow> (string \<times> string) list \<Rightarrow> Desc" where
  "NewDesc scheme fq h vl cl =
     \<lparr>fqName = fq, helpText = h, variableLabels = vl, constLabels = cl,
      err =
        (if \<not> IsValidMetricName scheme fq then Some ''not a valid metric name''
         else if \<not> list_all (checkLabelName scheme) (map fst cl)
           then Some ''not a valid label name''
         else if \<not> list_all ValidString (fq # map snd cl)
           then Some ''label value is not valid UTF-8''
         else if \<not> list_all (checkLabelName scheme) vl
           then Some ''not a valid label name''
         else if \<not> distinct (map fst cl @ vl)
           then Some ''duplicate label names in constant and variable labels''
         else None)\<rparr>"

subsection \<open>Samples\<close>

text \<open>
  \<^verbatim>\<open>MustNewConstMetric\<close> panics where \<^verbatim>\<open>NewConstMetric\<close> returns an error:
  when the descriptor carries a complaint, when the number of label values is
  not the number of the descriptor's variable labels, and when a label value
  is not valid UTF-8. Otherwise it pairs the descriptor with the value and the
  label values.
\<close>

datatype ValueType = CounterValue | GaugeValue | UntypedValue

record Metric =
  desc :: Desc
  valType :: ValueType
  val :: float64
  labelValues :: "string list"

datatype panic = Panic string

definition MustNewConstMetric ::
  "Desc \<Rightarrow> ValueType \<Rightarrow> float64 \<Rightarrow> string list \<Rightarrow> panic + Metric" where
  "MustNewConstMetric d vt v lvs =
     (case err d of
        Some e \<Rightarrow> Inl (Panic e)
      | None \<Rightarrow>
          if length lvs \<noteq> length (variableLabels d)
            then Inl (Panic ''inconsistent label cardinality'')
          else if \<not> list_all ValidString lvs
            then Inl (Panic ''label value is not valid UTF-8'')
          else Inr \<lparr>desc = d, valType = vt, val = v, labelValues = lvs\<rparr>)"

text \<open>The value a sample carries for a label name, and the label names it carries.\<close>

definition label :: "Metric \<Rightarrow> string \<Rightarrow> string option" where
  "label m k = map_of (zip (variableLabels (desc m)) (labelValues m)) k"

definition label_keys :: "Metric \<Rightarrow> string list" where
  "label_keys m =
     map fst (constLabels (desc m)) @ map fst (zip (variableLabels (desc m)) (labelValues m))"

section \<open>Structured logging\<close>

text \<open>
  A logger is a reference to a live \<^verbatim>\<open>slog.Logger\<close>; what is written through
  it is a record of level, message and key-value attributes.
\<close>

datatype Logger = Logger nat

datatype Level = LevelWarn | LevelError

datatype attr = IntAttr int | ReturnAttr Return

record LogRecord =
  via :: Logger
  level :: Level
  msg :: string
  attrs :: "(string \<times> attr) list"

section \<open>The collector\<close>

record gpuCollector =
  logger :: Logger
  gpuUtilizationDesc :: Desc
  gpuTemperatureDesc :: Desc
  gpuMemoryTotalDesc :: Desc
  gpuMemoryUsedDesc :: Desc
  gpuMemoryFreeDesc :: Desc
  gpuInfoDesc :: Desc

definition gpuCollectorSubsystem :: string where
  "gpuCollectorSubsystem = ''gpu''"

datatype error = Errorf string Return | ErrorsNew string

text \<open>
  The package constant \<^verbatim>\<open>namespace\<close> is declared in another file of the
  package; it is the parameter \<open>nspace\<close> below. The client's validation scheme
  is the parameter \<open>scheme\<close>.
\<close>

definition new_gpuCollector :: "NameValidationScheme \<Rightarrow> string \<Rightarrow> Logger \<Rightarrow> gpuCollector" where
  "new_gpuCollector scheme nspace lg =
     \<lparr>logger = lg,
      gpuUtilizationDesc = NewDesc scheme
        (BuildFQName nspace gpuCollectorSubsystem ''utilisation_percentage'')
        ''GPU utilisation in percent.''
        [''gpu_index'', ''gpu_name''] [],
      gpuTemperatureDesc = NewDesc scheme
        (BuildFQName nspace gpuCollectorSubsystem ''temperature_celsius'')
        ''GPU temperature in Celsius.''
        [''gpu_index'', ''gpu_name''] [],
      gpuMemoryTotalDesc = NewDesc scheme
        (BuildFQName nspace gpuCollectorSubsystem ''memory_total_bytes'')
        ''Total GPU memory in bytes.''
        [''gpu_index'', ''gpu_name''] [],
      gpuMemoryUsedDesc = NewDesc scheme
        (BuildFQName nspace gpuCollectorSubsystem ''memory_used_bytes'')
        ''Used GPU memory in bytes.''
        [''gpu_index'', ''gpu_name''] [],
      gpuMemoryFreeDesc = NewDesc scheme
        (BuildFQName nspace gpuCollectorSubsystem ''memory_free_bytes'')
        ''Free GPU memory in bytes.''
        [''gpu_index'', ''gpu_name''] [],
      gpuInfoDesc = NewDesc scheme
        (BuildFQName nspace gpuCollectorSubsystem ''info'')
        ''Static GPU information (e.g. index and name).''
        [''gpu_index'', ''gpu_name''] []\<rparr>"

text \<open>
  \<^verbatim>\<open>NewGPUCollector\<close>: the trace of library calls goes in and comes out; the
  result is the error or the collector.
\<close>

definition NewGPUCollector ::
  "NameValidationScheme \<Rightarrow> string \<Rightarrow> nvml \<Rightarrow> Logger \<Rightarrow> nvml_call list \<Rightarrow>
     nvml_call list \<times> (error + gpuCollector)" where
  "NewGPUCollector scheme nspace lib lg tr =
     (let ret = Init lib; tr1 = tr @ [CallInit]
      in if ret \<noteq> SUCCESS then (tr1, Inl (Errorf ''could not initialise NVML: %v'' ret))
         else (tr1, Inr (new_gpuCollector scheme nspace lg)))"

subsection \<open>The state \<^verbatim>\<open>Update\<close> runs in\<close>

text \<open>
  The receiver \<open>self\<close>, what has been sent on the channel, what has been written
  to the log, and the calls made into the library. A send appends to the
  sequence of samples sent: the scraper is taken to be receiving. A step hands
  back the state it leaves together with the panic that ended it, if one did;
  what was sent, logged and called before a panic stays in the state.
\<close>

record state =
  self :: gpuCollector
  sink :: "Metric list"
  logged :: "LogRecord list"
  calls :: "nvml_call list"

definition called :: "nvml_call \<Rightarrow> state \<Rightarrow> state" where
  "called c st = st\<lparr>calls := calls st @ [c]\<rparr>"

definition write_log :: "Level \<Rightarrow> string \<Rightarrow> (string \<times> attr) list \<Rightarrow> state \<Rightarrow> state" where
  "write_log lv m as st =
     st\<lparr>logged := logged st @ [\<lparr>via = logger (self st), level = lv, msg = m, attrs = as\<rparr>]\<rparr>"

definition send :: "Desc \<Rightarrow> float64 \<Rightarrow> string list \<Rightarrow> state \<Rightarrow> state \<times> panic option" where
  "send d v lvs st =
     (case MustNewConstMetric d GaugeValue v lvs of
        Inl p \<Rightarrow> (st, Some p)
      | Inr m \<Rightarrow> (st\<lparr>sink := sink st @ [m]\<rparr>, None))"

definition and_then ::
  "state \<times> panic option \<Rightarrow> (state \<Rightarrow> state \<times> panic option) \<Rightarrow> state \<times> panic option" where
  "and_then r f = (case r of (st, Some p) \<Rightarrow> (st, Some p) | (st, None) \<Rightarrow> f st)"

subsection \<open>One pass of the loop body\<close>

definition export_metrics ::
  "int \<Rightarrow> string \<Rightarrow> Utilization \<Rightarrow> 32 word \<Rightarrow> MemoryInfo \<Rightarrow> state \<Rightarrow> state \<times> panic option" where
  "export_metrics i name util temp mem st =
     (let gpuIndex = Itoa i;
          gpuUtilization = float64_of_uint32 (Gpu util)
      in and_then (send (gpuUtilizationDesc (self st)) gpuUtilization [gpuIndex, name] st) (\<lambda>st.
         and_then (send (gpuTemperatureDesc (self st)) (float64_of_uint32 temp) [gpuIndex, name] st) (\<lambda>st.
         and_then (send (gpuMemoryTotalDesc (self st)) (float64_of_uint64 (Total mem)) [gpuIndex, name] st) (\<lambda>st.
         and_then (send (gpuMemoryUsedDesc (self st)) (float64_of_uint64 (Used mem)) [gpuIndex, name] st) (\<lambda>st.
         and_then (send (gpuMemoryFreeDesc (self st)) (float64_of_uint64 (Free mem)) [gpuIndex, name] st) (\<lambda>st.
         send (gpuInfoDesc (self st)) 1 [gpuIndex, name] st))))))"

definition loop_body :: "nvml \<Rightarrow> int \<Rightarrow> state \<Rightarrow> state \<times> panic option" where
  "loop_body lib i st0 =
     (case DeviceGetHandleByIndex lib i of (device, ret) \<Rightarrow>
      let st1 = called (CallDeviceGetHandleByIndex i) st0 in
      if ret \<noteq> SUCCESS then
        (write_log LevelWarn ''failed to get handle for GPU device''
           [(''gpu_index'', IntAttr i), (''return'', ReturnAttr ret)] st1, None)
      else
      case GetName device of (name0, ret) \<Rightarrow>
      let st2 = called (CallGetName i) st1;
          st3 = (if ret \<noteq> SUCCESS then
                   write_log LevelWarn ''failed to get GPU name''
                     [(''gpu_index'', IntAttr i), (''return'', ReturnAttr ret)] st2
                 else st2);
          name = (if ret \<noteq> SUCCESS then ''unknown'' else name0) in
      case GetUtilizationRates device of (util, ret) \<Rightarrow>
      let st4 = called (CallGetUtilizationRates i) st3 in
      if ret \<noteq> SUCCESS then
        (write_log LevelWarn ''failed to get GPU utilization''
           [(''gpu_index'', IntAttr i), (''return'', ReturnAttr ret)] st4, None)
      else
      case GetTemperature device TEMPERATURE_GPU of (temp, ret) \<Rightarrow>
      let st5 = called (CallGetTemperature i TEMPERATURE_GPU) st4 in
      if ret \<noteq> SUCCESS then
        (write_log LevelWarn ''failed to get GPU temperature''
           [(''gpu_index'', IntAttr i), (''return'', ReturnAttr ret)] st5, None)
      else
      case GetMemoryInfo device of (mem, ret) \<Rightarrow>
      let st6 = called (CallGetMemoryInfo i) st5 in
      if ret \<noteq> SUCCESS then
        (write_log LevelWarn ''failed to get GPU memory info''
           [(''gpu_index'', IntAttr i), (''return'', ReturnAttr ret)] st6, None)
      else export_metrics i name util temp mem st6)"

subsection \<open>The loop and \<^verbatim>\<open>Update\<close>\<close>

function loop :: "nvml \<Rightarrow> int \<Rightarrow> int \<Rightarrow> state \<Rightarrow> state \<times> panic option" where
  "loop lib i count st =
     (if i < count then
        (case loop_body lib i st of
           (st', Some p) \<Rightarrow> (st', Some p)
         | (st', None) \<Rightarrow> loop lib (i + 1) count st')
      else (st, None))"
  by pat_completeness auto
termination
  by (relation "measure (\<lambda>(lib, i, count, st). nat (count - i))") auto

declare loop.simps [simp del]

text \<open>How a call of \<open>Update\<close> ends: it returns nil or an error, or it panics.\<close>

datatype result = Returned "error option" | Panicked panic

definition Update :: "nvml \<Rightarrow> state \<Rightarrow> state \<times> result" where
  "Update lib st0 =
     (case DeviceGetCount lib of (count, ret) \<Rightarrow>
      let st1 = called CallDeviceGetCount st0 in
      if ret \<noteq> SUCCESS then
        (write_log LevelError ''failed to get GPU count'' [(''return'', ReturnAttr ret)] st1,
         Returned (Some (Errorf ''could not retrieve GPU count: %v'' ret)))
      else if count = 0 then (st1, Returned (Some (ErrorsNew ''no NVIDIA GPUs found'')))
      else
        (case loop lib 0 count st1 of
           (st2, Some p) \<Rightarrow> (st2, Panicked p)
         | (st2, None) \<Rightarrow> (st2, Returned None)))"

section \<open>What one scrape is expected to produce\<close>

text \<open>
  The functions below describe, from the library's answers alone, what a pass
  over device \<open>i\<close> contributes: whether all four gating reads succeed, the name
  that ends up on the samples, the six samples in the order they are sent, and
  the library calls made. The lemmas further down show that \<open>loop_body\<close>,
  \<open>loop\<close> and \<open>Update\<close> compute exactly this.
\<close>

definition device_name :: "Device \<Rightarrow> string" where
  "device_name d = (if snd (GetName d) \<noteq> SUCCESS then ''unknown'' else fst (GetName d))"

definition fully_readable :: "nvml \<Rightarrow> int \<Rightarrow> bool" where
  "fully_readable lib i =
     (let d = fst (DeviceGetHandleByIndex lib i)
      in snd (DeviceGetHandleByIndex lib i) = SUCCESS \<and>
         snd (GetUtilizationRates d) = SUCCESS \<and>
         snd (GetTemperature d TEMPERATURE_GPU) = SUCCESS \<and>
         snd (GetMemoryInfo d) = SUCCESS)"

definition six_samples ::
  "gpuCollector \<Rightarrow> int \<Rightarrow> string \<Rightarrow> Utilization \<Rightarrow> 32 word \<Rightarrow> MemoryInfo \<Rightarrow> Metric list" where
  "six_samples g i name util temp mem =
     [\<lparr>desc = gpuUtilizationDesc g, valType = GaugeValue,
       val = float64_of_uint32 (Gpu util), labelValues = [Itoa i, name]\<rparr>,
      \<lparr>desc = gpuTemperatureDesc g, valType = GaugeValue,
       val = float64_of_uint32 temp, labelValues = [Itoa i, name]\<rparr>,
      \<lparr>desc = gpuMemoryTotalDesc g, valType = GaugeValue,
       val = float64_of_uint64 (Total mem), labelValues = [Itoa i, name]\<rparr>,
      \<lparr>desc = gpuMemoryUsedDesc g, valType = GaugeValue,
       val = float64_of_uint64 (Used mem), labelValues = [Itoa i, name]\<rparr>,
      \<lparr>desc = gpuMemoryFreeDesc g, valType = GaugeValue,
       val = float64_of_uint64 (Free mem), labelValues = [Itoa i, name]\<rparr>,
      \<lparr>desc = gpuInfoDesc g, valType = GaugeValue,
       val = 1, labelValues = [Itoa i, name]\<rparr>]"

definition device_samples :: "gpuCollector \<Rightarrow> nvml \<Rightarrow> int \<Rightarrow> Metric list" where
  "device_samples g lib i =
     (if fully_readable lib i then
        (let d = fst (DeviceGetHandleByIndex lib i)
         in six_samples g i (device_name d) (fst (GetUtilizationRates d))
              (fst (GetTemperature d TEMPERATURE_GPU)) (fst (GetMemoryInfo d)))
      else [])"

definition device_calls :: "nvml \<Rightarrow> int \<Rightarrow> nvml_call list" where
  "device_calls lib i =
     (let d = fst (DeviceGetHandleByIndex lib i)
      in CallDeviceGetHandleByIndex i #
         (if snd (DeviceGetHandleByIndex lib i) \<noteq> SUCCESS then []
          else CallGetName i # CallGetUtilizationRates i #
            (if snd (GetUtilizationRates d) \<noteq> SUCCESS then []
             else CallGetTemperature i TEMPERATURE_GPU #
               (if snd (GetTemperature d TEMPERATURE_GPU) \<noteq> SUCCESS then []
                else [CallGetMemoryInfo i]))))"

text \<open>
  The client accepts the samples of a batch one by one, up to the first it
  refuses: \<open>accepted\<close> are those that get through, \<open>refusal\<close> is the panic of
  the first refused one.
\<close>

definition acceptable :: "Metric \<Rightarrow> bool" where
  "acceptable m =
     (err (desc m) = None \<and> length (labelValues m) = length (variableLabels (desc m)) \<and>
      list_all ValidString (labelValues m))"

definition refusal_of :: "Metric \<Rightarrow> panic" where
  "refusal_of m =
     (case MustNewConstMetric (desc m) (valType m) (val m) (labelValues m) of
        Inl p \<Rightarrow> p
      | Inr _ \<Rightarrow> Panic [])"

definition accepted :: "Metric list \<Rightarrow> Metric list" where
  "accepted ms = takeWhile acceptable ms"

definition refusal :: "Metric list \<Rightarrow> panic option" where
  "refusal ms =
     (case dropWhile acceptable ms of [] \<Rightarrow> None | m # _ \<Rightarrow> Some (refusal_of m))"

text \<open>
  The indices whose pass is begun: those up to and including the first whose
  batch is refused.
\<close>

fun begun :: "gpuCollector \<Rightarrow> nvml \<Rightarrow> int list \<Rightarrow> int list" where
  "begun g lib [] = []"
| "begun g lib (i # is) =
     i # (if refusal (device_samples g lib i) = None then begun g lib is else [])"

fun first_refusal :: "gpuCollector \<Rightarrow> nvml \<Rightarrow> int list \<Rightarrow> panic option" where
  "first_refusal g lib [] = None"
| "first_refusal g lib (i # is) =
     (case refusal (device_samples g lib i) of
        Some p \<Rightarrow> Some p
      | None \<Rightarrow> first_refusal g lib is)"

definition sent :: "gpuCollector \<Rightarrow> nvml \<Rightarrow> int list \<Rightarrow> Metric list" where
  "sent g lib is = concat (map (\<lambda>i. accepted (device_samples g lib i)) (begun g lib is))"

text \<open>How \<open>Update\<close> ends after the loop: with the loop's panic, or returning nil.\<close>

definition ending :: "panic option \<Rightarrow> result" where
  "ending r = (case r of None \<Rightarrow> Returned None | Some p \<Rightarrow> Panicked p)"

text \<open>
  The indices a scrape sets out to visit, and how it ends: with an error when
  the count is not to be had or is zero, otherwise as the loop ends.
\<close>

definition scrape_indices :: "nvml \<Rightarrow> int list" where
  "scrape_indices lib =
     (case DeviceGetCount lib of (count, ret) \<Rightarrow>
        if ret \<noteq> SUCCESS \<or> count = 0 then [] else [0..count - 1])"

definition outcome :: "gpuCollector \<Rightarrow> nvml \<Rightarrow> result" where
  "outcome g lib =
     (case DeviceGetCount lib of (count, ret) \<Rightarrow>
        if ret \<noteq> SUCCESS then Returned (Some (Errorf ''could not retrieve GPU count: %v'' ret))
        else if count = 0 then Returned (Some (ErrorsNew ''no NVIDIA GPUs found''))
        else ending (first_refusal g lib [0..count - 1]))"

text \<open>The six descriptors of a collector, in the order their samples are sent.\<close>

definition descs :: "gpuCollector \<Rightarrow> Desc list" where
  "descs g =
     [gpuUtilizationDesc g, gpuTemperatureDesc g, gpuMemoryTotalDesc g,
      gpuMemoryUsedDesc g, gpuMemoryFreeDesc g, gpuInfoDesc g]"

text \<open>
  Every descriptor declares the two label names and no constant label
  (\<open>descs_ok\<close>); every descriptor passed the client's validation (\<open>descs_valid\<close>).
\<close>

definition descs_ok :: "gpuCollector \<Rightarrow> bool" where
  "descs_ok g =
     list_all (\<lambda>d. variableLabels d = [''gpu_index'', ''gpu_name''] \<and> constLabels d = [])
       (descs g)"

definition descs_valid :: "gpuCollector \<Rightarrow> bool" where
  "descs_valid g = list_all (\<lambda>d. err d = None) (descs g)"

text \<open>The name a fully readable device at index \<open>j\<close> puts on its samples.\<close>

definition name_at :: "nvml \<Rightarrow> int \<Rightarrow> string" where
  "name_at lib j = device_name (fst (DeviceGetHandleByIndex lib j))"

text \<open>The index a sample was emitted for, read back from its first label value.\<close>

definition index_of :: "Metric \<Rightarrow> int" where
  "index_of m = (case labelValues m of [] \<Rightarrow> 0 | a # _ \<Rightarrow> Atoi a)"

definition is_handle_call :: "nvml_call \<Rightarrow> bool" where
  "is_handle_call c = (case c of CallDeviceGetHandleByIndex _ \<Rightarrow> True | _ \<Rightarrow> False)"

section \<open>Scripted libraries\<close>

text \<open>
  Small libraries with fixed answers, on which the theorems are exercised. The
  first is a host with two healthy devices named A and B. A device may also
  report, with \<open>SUCCESS\<close>, a name that is not text: the single byte FF.
\<close>

definition no_device :: Device where
  "no_device =
     \<lparr>GetName = ([], 2), GetUtilizationRates = (\<lparr>Gpu = 0, Memory = 0\<rparr>, 2),
      GetTemperature = (\<lambda>s. (0, 2)),
      GetMemoryInfo = (\<lparr>Total = 0, Free = 0, Used = 0\<rparr>, 2)\<rparr>"

definition gpuA :: Device where
  "gpuA =
     \<lparr>GetName = (''A'', SUCCESS), GetUtilizationRates = (\<lparr>Gpu = 50, Memory = 0\<rparr>, SUCCESS),
      GetTemperature = (\<lambda>s. (60, SUCCESS)),
      GetMemoryInfo = (\<lparr>Total = 100, Free = 60, Used = 40\<rparr>, SUCCESS)\<rparr>"

definition gpuB :: Device where
  "gpuB =
     \<lparr>GetName = (''B'', SUCCESS), GetUtilizationRates = (\<lparr>Gpu = 10, Memory = 0\<rparr>, SUCCESS),
      GetTemperature = (\<lambda>s. (30, SUCCESS)),
      GetMemoryInfo = (\<lparr>Total = 200, Free = 200, Used = 0\<rparr>, SUCCESS)\<rparr>"

definition gpu_nameless :: Device where
  "gpu_nameless = gpuA\<lparr>GetName := ([], 3)\<rparr>"

definition gpu_no_temperature :: Device where
  "gpu_no_temperature = gpuA\<lparr>GetTemperature := (\<lambda>s. (0, 3))\<rparr>"

definition gpu_bad_name :: Device where
  "gpu_bad_name = gpuA\<lparr>GetName := ([CHR 0xFF], SUCCESS)\<rparr>"

definition two_gpus :: nvml where
  "two_gpus =
     \<lparr>Init = SUCCESS, DeviceGetCount = (2, SUCCESS),
      DeviceGetHandleByIndex =
        (\<lambda>i. if i = 0 then (gpuA, SUCCESS) else if i = 1 then (gpuB, SUCCESS)
             else (no_device, 2))\<rparr>"

definition count_fails :: nvml where
  "count_fails = two_gpus\<lparr>DeviceGetCount := (0, 999)\<rparr>"

definition zero_gpus :: nvml where
  "zero_gpus = two_gpus\<lparr>DeviceGetCount := (0, SUCCESS)\<rparr>"

definition init_fails :: nvml where
  "init_fails = two_gpus\<lparr>Init := 1\<rparr>"

definition middle_gpu_lost :: nvml where
  "middle_gpu_lost =
     \<lparr>Init = SUCCESS, DeviceGetCount = (3, SUCCESS),
      DeviceGetHandleByIndex =
        (\<lambda>i. if i = 0 then (gpuA, SUCCESS) else if i = 2 then (gpuB, SUCCESS)
             else (no_device, 15))\<rparr>"

definition first_gpu_no_temperature :: nvml where
  "first_gpu_no_temperature =
     \<lparr>Init = SUCCESS, DeviceGetCount = (2, SUCCESS),
      DeviceGetHandleByIndex =
        (\<lambda>i. if i = 0 then (gpu_no_temperature, SUCCESS) else if i = 1 then (gpuB, SUCCESS)
             else (no_device, 2))\<rparr>"

definition one_nameless_gpu :: nvml where
  "one_nameless_gpu =
     \<lparr>Init = SUCCESS, DeviceGetCount = (1, SUCCESS),
      DeviceGetHandleByIndex =
        (\<lambda>i. if i = 0 then (gpu_nameless, SUCCESS) else (no_device, 2))\<rparr>"

definition bad_name_first :: nvml where
  "bad_name_first =
     \<lparr>Init = SUCCESS, DeviceGetCount = (2, SUCCESS),
      DeviceGetHandleByIndex =
        (\<lambda>i. if i = 0 then (gpu_bad_name, SUCCESS) else if i = 1 then (gpuB, SUCCESS)
             else (no_device, 2))\<rparr>"

definition lost_then_bad_name :: nvml where
  "lost_then_bad_name =
     \<lparr>Init = SUCCESS, DeviceGetCount = (2, SUCCESS),
      DeviceGetHandleByIndex =
        (\<lambda>i. if i = 1 then (gpu_bad_name, SUCCESS) else (no_device, 15))\<rparr>"

definition bad_name_then_nameless :: nvml where
  "bad_name_then_nameless =
     \<lparr>Init = SUCCESS, DeviceGetCount = (2, SUCCESS),
      DeviceGetHandleByIndex =
        (\<lambda>i. if i = 0 then (gpu_bad_name, SUCCESS) else if i = 1 then (gpu_nameless, SUCCESS)
             else (no_device, 2))\<rparr>"

definition good_then_bad_name :: nvml where
  "good_then_bad_name =
     \<lparr>Init = SUCCESS, DeviceGetCount = (2, SUCCESS),
      DeviceGetHandleByIndex =
        (\<lambda>i. if i = 0 then (gpuA, SUCCESS) else if i = 1 then (gpu_bad_name, SUCCESS)
             else (no_device, 2))\<rparr>"

definition fresh :: state where
  "fresh =
     \<lparr>self = new_gpuCollector LegacyValidation ''node'' (Logger 0),
      sink = [], logged = [], calls = []\<rparr>"

text \<open>A state in which one device's samples were sent before.\<close>

definition scraped_once :: state where
  "scraped_once =
     fresh\<lparr>sink := six_samples (self fresh) 0 ''A'' \<lparr>Gpu = 50, Memory = 0\<rparr> 60
                      \<lparr>Total = 100, Free = 60, Used = 40\<rparr>,
           calls := [CallInit, CallDeviceGetCount]\<rparr>"

section \<open>Decimal numerals\<close>

lemma digit_val_digit_char: "d < 10 \<Longrightarrow> digit_val (digit_char d) = d"
proof -
  assume "d < 10"
  then have "d \<in> {0, 1, 2, 3, 4, 5, 6, 7, 8, 9}" by auto
  then show ?thesis by (auto simp: digit_val_def digit_char_def)
qed

lemma is_digit_digit_char: "d < 10 \<Longrightarrow> is_digit (digit_char d)"
proof -
  assume "d < 10"
  then have "d \<in> {0, 1, 2, 3, 4, 5, 6, 7, 8, 9}" by auto
  then show ?thesis by (auto simp: is_digit_def digit_char_def)
qed

lemma digit_char_zero: "d < 10 \<Longrightarrow> digit_char d = CHR ''0'' \<Longrightarrow> d = 0"
proof -
  assume "d < 10" and z: "digit_char d = CHR ''0''"
  then have "d \<in> {0, 1, 2, 3, 4, 5, 6, 7, 8, 9}" by auto
  then show ?thesis using z by (auto simp: digit_char_def)
qed

lemma numeral_value_snoc: "numeral_value (s @ [c]) = 10 * numeral_value s + digit_val c"
  by (simp add: numeral_value_def)

lemma digits_of_nonempty: "digits_of n \<noteq> []"
  by (subst digits_of.simps) simp

lemma digits_of_all_digits: "list_all is_digit (digits_of n)"
proof (induction n rule: digits_of.induct)
  case (1 n)
  show ?case
  proof (cases "n < 10")
    case True
    then show ?thesis by (subst digits_of.simps) (simp add: is_digit_digit_char)
  next
    case False
    with "1" show ?thesis by (subst digits_of.simps) (simp add: is_digit_digit_char)
  qed
qed

lemma numeral_value_digits_of: "numeral_value (digits_of n) = n"
proof (induction n rule: digits_of.induct)
  case (1 n)
  show ?case
  proof (cases "n < 10")
    case True
    then show ?thesis
      by (subst digits_of.simps) (simp add: numeral_value_def digit_val_digit_char)
  next
    case False
    with "1" show ?thesis
      by (subst digits_of.simps) (simp add: numeral_value_snoc digit_val_digit_char)
  qed
qed

lemma digits_of_leading_zero: "hd (digits_of n) = CHR ''0'' \<Longrightarrow> n = 0"
proof (induction n rule: digits_of.induct)
  case (1 n)
  show ?case
  proof (cases "n < 10")
    case True
    with "1.prems" show ?thesis
      by (subst (asm) digits_of.simps) (simp add: digit_char_zero)
  next
    case False
    with "1.prems" have "hd (digits_of (n div 10)) = CHR ''0''"
      by (subst (asm) digits_of.simps) (simp add: digits_of_nonempty)
    with "1.IH" False have "n div 10 = 0" by simp
    with False show ?thesis by simp
  qed
qed

lemma hd_digits_of_not_minus: "hd (digits_of n) \<noteq> CHR ''-''"
proof -
  have "is_digit (hd (digits_of n))"
    using digits_of_all_digits [of n] digits_of_nonempty [of n]
    by (cases "digits_of n") simp_all
  then show ?thesis by (auto simp: is_digit_def)
qed

lemma Atoi_Itoa: "Atoi (Itoa i) = i"
proof (cases "i < 0")
  case True
  then show ?thesis by (simp add: Atoi_def Itoa_def numeral_value_digits_of)
next
  case False
  obtain c r where cr: "digits_of (nat i) = c # r"
    using digits_of_nonempty [of "nat i"] by (cases "digits_of (nat i)") auto
  with hd_digits_of_not_minus [of "nat i"] have "c \<noteq> CHR ''-''" by simp
  with False cr numeral_value_digits_of [of "nat i"] show ?thesis
    by (simp add: Atoi_def Itoa_def)
qed

lemma Itoa_inject: "Itoa i = Itoa j \<Longrightarrow> i = j"
  by (metis Atoi_Itoa)

lemma decimal_of_Itoa: "0 \<le> i \<Longrightarrow> decimal_of (Itoa i) i"
proof -
  assume nn: "0 \<le> i"
  have z: "hd (digits_of (nat i)) = CHR ''0'' \<longrightarrow> digits_of (nat i) = ''0''"
  proof
    assume "hd (digits_of (nat i)) = CHR ''0''"
    then have "nat i = 0" by (rule digits_of_leading_zero)
    then show "digits_of (nat i) = ''0''"
      by (simp add: digits_of.simps digit_char_def)
  qed
  show ?thesis using nn z
    by (simp add: decimal_of_def Itoa_def digits_of_nonempty digits_of_all_digits
          numeral_value_digits_of)
qed

lemma ascii_ValidString:
  "list_all (\<lambda>c. (of_char c :: nat) < 128) s \<Longrightarrow> ValidString s"
proof -
  have "list_all (\<lambda>b. b < 128) bs \<Longrightarrow> utf8_scan (0, 0x80, 0xBF) bs" for bs :: "nat list"
    by (induction bs) (simp_all add: utf8_step_def)
  from this [of "map of_char s"] show "list_all (\<lambda>c. (of_char c :: nat) < 128) s \<Longrightarrow> ValidString s"
    by (simp add: ValidString_def list_all_iff)
qed

lemma is_digit_ascii: "is_digit c \<Longrightarrow> (of_char c :: nat) < 128"
  by (auto simp: is_digit_def)

lemma ValidString_Itoa: "ValidString (Itoa i)"
proof -
  have "list_all (\<lambda>c. (of_char c :: nat) < 128) (digits_of n)" for n
    using digits_of_all_digits [of n] by (auto simp: list_all_iff is_digit_ascii)
  then show ?thesis
    by (intro ascii_ValidString) (simp add: Itoa_def)
qed

section \<open>The loop computes the expected samples\<close>

lemma descs_ok_new: "descs_ok (new_gpuCollector scheme nspace lg)"
  by (simp add: descs_ok_def descs_def new_gpuCollector_def NewDesc_def)

lemma send_eq:
  "send d v lvs st =
     (let m = \<lparr>desc = d, valType = GaugeValue, val = v, labelValues = lvs\<rparr>
      in if acceptable m then (st\<lparr>sink := sink st @ [m]\<rparr>, None)
         else (st, Some (refusal_of m)))"
  by (auto simp: send_def MustNewConstMetric_def acceptable_def refusal_of_def Let_def
        split: option.splits)

lemma export_metrics_eq:
  "export_metrics i name util temp mem st =
     (st\<lparr>sink := sink st @ accepted (six_samples (self st) i name util temp mem)\<rparr>,
      refusal (six_samples (self st) i name util temp mem))"
  by (simp add: export_metrics_def send_eq and_then_def six_samples_def accepted_def
        refusal_def Let_def)

lemma loop_body_spec:
  "\<exists>st'. loop_body lib i st = (st', refusal (device_samples (self st) lib i)) \<and>
         self st' = self st \<and>
         sink st' = sink st @ accepted (device_samples (self st) lib i) \<and>
         (\<exists>ls. logged st' = logged st @ ls) \<and>
         calls st' = calls st @ device_calls lib i"
  by (auto simp: loop_body_def device_samples_def fully_readable_def Let_def export_metrics_eq
        called_def write_log_def device_name_def device_calls_def accepted_def refusal_def
        split: prod.splits)

lemma loop_spec:
  "\<exists>st'. loop lib i n st = (st', first_refusal (self st) lib [i..n - 1]) \<and>
         self st' = self st \<and>
         sink st' = sink st @ sent (self st) lib [i..n - 1] \<and>
         (\<exists>ls. logged st' = logged st @ ls) \<and>
         calls st' = calls st @ concat (map (device_calls lib) (begun (self st) lib [i..n - 1]))"
proof (induction lib i n st rule: loop.induct)
  case (1 lib i n st)
  show ?case
  proof (cases "i < n")
    case False
    then show ?thesis by (simp add: loop.simps sent_def)
  next
    case True
    then have u: "[i..n - 1] = i # [i + 1..n - 1]" by (simp add: upto_rec1)
    from loop_body_spec [of lib i st] obtain st1 ls1 where
      b: "loop_body lib i st = (st1, refusal (device_samples (self st) lib i))"
      and s1: "self st1 = self st"
      and k1: "sink st1 = sink st @ accepted (device_samples (self st) lib i)"
      and l1: "logged st1 = logged st @ ls1"
      and c1: "calls st1 = calls st @ device_calls lib i"
      by blast
    show ?thesis
    proof (cases "refusal (device_samples (self st) lib i)")
      case (Some p)
      with True b have "loop lib i n st = (st1, Some p)" by (subst loop.simps) simp
      then show ?thesis using Some s1 k1 l1 c1 u by (simp add: sent_def)
    next
      case None
      from "1.IH" [OF True b [unfolded None, symmetric] refl] obtain st2 ls2 where
        r: "loop lib (i + 1) n st1 = (st2, first_refusal (self st1) lib [i + 1..n - 1])"
        and s2: "self st2 = self st1"
        and k2: "sink st2 = sink st1 @ sent (self st1) lib [i + 1..n - 1]"
        and l2: "logged st2 = logged st1 @ ls2"
        and c2: "calls st2 = calls st1 @
                   concat (map (device_calls lib) (begun (self st1) lib [i + 1..n - 1]))"
        by blast
      from True b None r have "loop lib i n st = (st2, first_refusal (self st1) lib [i + 1..n - 1])"
        by (subst loop.simps) simp
      then show ?thesis using None s1 s2 k1 k2 l1 l2 c1 c2 u by (simp add: sent_def)
    qed
  qed
qed

lemma Update_spec:
  assumes "DeviceGetCount lib = (count, SUCCESS)" and "count \<noteq> 0"
  shows "\<exists>st'. Update lib st = (st', ending (first_refusal (self st) lib [0..count - 1])) \<and>
           self st' = self st \<and>
           sink st' = sink st @ sent (self st) lib [0..count - 1] \<and>
           (\<exists>ls. logged st' = logged st @ ls) \<and>
           calls st' = calls st @ CallDeviceGetCount #
             concat (map (device_calls lib) (begun (self st) lib [0..count - 1]))"
proof -
  let ?st1 = "called CallDeviceGetCount st"
  from loop_spec [of lib 0 count ?st1] obtain st2 ls where
    r: "loop lib 0 count ?st1 = (st2, first_refusal (self ?st1) lib [0..count - 1])"
    and s: "self st2 = self ?st1"
    and k: "sink st2 = sink ?st1 @ sent (self ?st1) lib [0..count - 1]"
    and l: "logged st2 = logged ?st1 @ ls"
    and c: "calls st2 = calls ?st1 @
              concat (map (device_calls lib) (begun (self ?st1) lib [0..count - 1]))"
    by blast
  have g: "self ?st1 = self st" by (simp add: called_def)
  have "Update lib st = (st2, ending (first_refusal (self st) lib [0..count - 1]))"
    using assms r g by (simp add: Update_def ending_def split: option.splits)
  then show ?thesis using s k l c g by (simp add: called_def)
qed

lemma Update_fails:
  assumes "DeviceGetCount lib = (count, ret)" and "ret \<noteq> SUCCESS \<or> count = 0"
  shows "\<exists>st'. Update lib st =
            (st', Returned (Some (if ret \<noteq> SUCCESS
                                  then Errorf ''could not retrieve GPU count: %v'' ret
                                  else ErrorsNew ''no NVIDIA GPUs found''))) \<and>
           self st' = self st \<and> sink st' = sink st \<and>
           (\<exists>ls. logged st' = logged st @ ls) \<and>
           calls st' = calls st @ [CallDeviceGetCount]"
  using assms
  by (auto simp: Update_def called_def write_log_def Let_def)

section \<open>Batches, refusals and indices\<close>

lemma filter_concat_map_none:
  "(\<And>j m. j \<in> set xs \<Longrightarrow> m \<in> set (f j) \<Longrightarrow> \<not> P m) \<Longrightarrow> filter P (concat (map f xs)) = []"
  by (induction xs) (auto simp: filter_empty_conv)

lemma filter_concat_map_one:
  assumes "distinct xs" and "i \<in> set xs"
    and "\<And>j m. j \<in> set xs \<Longrightarrow> m \<in> set (f j) \<Longrightarrow> P m \<longleftrightarrow> j = i"
  shows "filter P (concat (map f xs)) = f i"
  using assms
proof (induction xs)
  case Nil
  then show ?case by simp
next
  case (Cons x xs)
  show ?case
  proof (cases "x = i")
    case True
    with Cons.prems(1) have ni: "i \<notin> set xs" by simp
    have "filter P (concat (map f xs)) = []"
    proof (rule filter_concat_map_none)
      fix j m assume j: "j \<in> set xs" and m: "m \<in> set (f j)"
      with ni have "j \<noteq> i" by auto
      with Cons.prems(3) [of j m] j m show "\<not> P m" by simp
    qed
    moreover have "filter P (f i) = f i"
      using Cons.prems(3) [of i] True by (simp add: filter_id_conv)
    ultimately show ?thesis using True by simp
  next
    case False
    with Cons.prems have i: "i \<in> set xs" and d: "distinct xs" by auto
    have "filter P (f x) = []"
      using Cons.prems(3) [of x] False by (auto simp: filter_empty_conv)
    moreover have "filter P (concat (map f xs)) = f i"
      using Cons.IH [OF d i] Cons.prems(3) by simp
    ultimately show ?thesis by simp
  qed
qed

lemma length_concat_map_const:
  "(\<And>j. j \<in> set xs \<Longrightarrow> length (f j) = c) \<Longrightarrow> length (concat (map f xs)) = c * length xs"
  by (induction xs) auto

lemma label_six_samples:
  assumes "descs_ok g" and "m \<in> set (six_samples g i name util temp mem)"
  shows "label m ''gpu_index'' = Some (Itoa i) \<and> label m ''gpu_name'' = Some name \<and>
         label_keys m = [''gpu_index'', ''gpu_name''] \<and> valType m = GaugeValue"
  using assms by (auto simp: six_samples_def descs_ok_def descs_def label_def label_keys_def)

lemma label_device_samples:
  assumes "descs_ok g" and "m \<in> set (device_samples g lib j)"
  shows "label m ''gpu_index'' = Some (Itoa j)"
  using assms label_six_samples [of g m j]
  by (auto simp: device_samples_def Let_def split: if_splits)

lemma label_keys_device_samples:
  assumes "descs_ok g" and "m \<in> set (device_samples g lib j)"
  shows "label_keys m = [''gpu_index'', ''gpu_name'']"
  using assms label_six_samples [of g m j]
  by (auto simp: device_samples_def Let_def split: if_splits)

lemma desc_device_samples:
  "m \<in> set (device_samples g lib j) \<Longrightarrow> desc m \<in> set (descs g)"
  by (auto simp: device_samples_def six_samples_def descs_def Let_def split: if_splits)

lemma index_of_device_samples:
  "m \<in> set (device_samples g lib j) \<Longrightarrow> index_of m = j"
  by (auto simp: device_samples_def six_samples_def index_of_def Atoi_Itoa Let_def
        split: if_splits)

lemma length_device_samples:
  "length (device_samples g lib j) = (if fully_readable lib j then 6 else 0)"
  by (simp add: device_samples_def six_samples_def Let_def)

lemma samples_of_index:
  assumes "descs_ok g" and "0 \<le> i" and "i < n"
  shows "filter (\<lambda>m. label m ''gpu_index'' = Some (Itoa i))
           (concat (map (device_samples g lib) [0..n - 1])) = device_samples g lib i"
proof (rule filter_concat_map_one)
  show "distinct [0..n - 1]" by simp
  show "i \<in> set [0..n - 1]" using assms by simp
  fix j m assume "j \<in> set [0..n - 1]" and m: "m \<in> set (device_samples g lib j)"
  from label_device_samples [OF assms(1) m]
  show "(label m ''gpu_index'' = Some (Itoa i)) \<longleftrightarrow> j = i"
    by (auto dest: Itoa_inject)
qed

lemma length_all_but_one:
  assumes "0 \<le> k" and "k < n"
    and "\<And>j. 0 \<le> j \<Longrightarrow> j < n \<Longrightarrow> j \<noteq> k \<Longrightarrow> length (f j) = c"
    and "f k = []"
  shows "length (concat (map f [0..n - 1])) = nat (n - 1) * c"
proof -
  from assms(1,2) have sp: "[0..n - 1] = [0..k - 1] @ k # [k + 1..n - 1]"
    by (intro upto_split3) simp_all
  have a: "length (concat (map f [0..k - 1])) = c * length [0..k - 1]"
    using assms(2,3) by (intro length_concat_map_const) auto
  have b: "length (concat (map f [k + 1..n - 1])) = c * length [k + 1..n - 1]"
    using assms(1,3) by (intro length_concat_map_const) auto
  have "nat k + nat (n - k - 1) = nat (n - 1)" using assms(1,2) by simp
  then have "c * nat k + c * nat (n - k - 1) = nat (n - 1) * c"
    by (metis distrib_left mult.commute)
  with a b assms(4) show ?thesis by (simp add: sp)
qed

lemma filter_handle_calls:
  "filter is_handle_call (concat (map (device_calls lib) xs)) = map CallDeviceGetHandleByIndex xs"
  by (induction xs) (simp_all add: device_calls_def is_handle_call_def Let_def)

lemma sorted_concat_by_key:
  assumes "sorted xs" and "\<And>j m. j \<in> set xs \<Longrightarrow> m \<in> set (f j) \<Longrightarrow> key m = j"
  shows "sorted (map key (concat (map f xs)))"
  using assms
proof (induction xs)
  case Nil
  then show ?case by simp
next
  case (Cons x xs)
  from Cons.prems have sx: "sorted xs" and le: "\<forall>y\<in>set xs. x \<le> y" by simp_all
  have t: "sorted (map key (concat (map f xs)))"
    using Cons.IH [OF sx] Cons.prems(2) by simp
  have h: "map key (f x) = replicate (length (f x)) x"
    using Cons.prems(2) [of x] by (auto simp: map_replicate_const [symmetric] intro: map_cong)
  have "sorted (map key (f x))" by (simp add: h sorted_replicate)
  moreover have "\<forall>a\<in>set (map key (f x)). \<forall>b\<in>set (map key (concat (map f xs))). a \<le> b"
    using le Cons.prems(2) by fastforce
  ultimately show ?case using t by (simp add: sorted_append)
qed

lemma refusal_None_iff: "refusal ms = None \<longleftrightarrow> list_all acceptable ms"
proof -
  have "refusal ms = None \<longleftrightarrow> dropWhile acceptable ms = []"
    by (cases "dropWhile acceptable ms") (simp_all add: refusal_def del: dropWhile_eq_Nil_conv)
  then show ?thesis by (simp add: dropWhile_eq_Nil_conv list_all_iff)
qed

lemma accepted_all: "refusal ms = None \<Longrightarrow> accepted ms = ms"
  by (simp add: refusal_None_iff accepted_def list_all_iff)

lemma set_accepted: "m \<in> set (accepted ms) \<Longrightarrow> m \<in> set ms"
  by (auto simp: accepted_def dest: set_takeWhileD)

lemma accepted_initial: "\<exists>rest. ms = accepted ms @ rest"
  by (metis accepted_def takeWhile_dropWhile_id)

lemma acceptable_six_samples:
  assumes "descs_ok g" and "descs_valid g" and "ValidString name"
  shows "list_all acceptable (six_samples g i name util temp mem)"
  using assms
  by (simp add: six_samples_def acceptable_def descs_ok_def descs_valid_def descs_def
        ValidString_Itoa)

lemma refusal_device_samples:
  assumes "descs_ok g" and "descs_valid g"
    and "fully_readable lib i \<longrightarrow> ValidString (name_at lib i)"
  shows "refusal (device_samples g lib i) = None"
  using assms acceptable_six_samples [OF assms(1,2)]
  by (simp add: refusal_None_iff device_samples_def name_at_def Let_def)

lemma refusal_unreadable:
  "\<not> fully_readable lib i \<Longrightarrow> refusal (device_samples g lib i) = None"
  by (simp add: device_samples_def refusal_def)

lemma begun_all:
  "(\<And>i. i \<in> set xs \<Longrightarrow> refusal (device_samples g lib i) = None) \<Longrightarrow>
   begun g lib xs = xs \<and> first_refusal g lib xs = None \<and>
   sent g lib xs = concat (map (device_samples g lib) xs)"
proof (induction xs)
  case Nil
  then show ?case by (simp add: sent_def)
next
  case (Cons x xs)
  from Cons.prems have r: "refusal (device_samples g lib x) = None" by simp
  from Cons.IH Cons.prems have b: "begun g lib xs = xs" and f: "first_refusal g lib xs = None"
    and s: "sent g lib xs = concat (map (device_samples g lib) xs)"
    by simp_all
  from r b f s show ?case by (simp add: sent_def accepted_all)
qed

lemma first_refusal_None_begun: "first_refusal g lib xs = None \<Longrightarrow> begun g lib xs = xs"
  by (induction xs) (auto split: option.splits)

lemma begun_append:
  "first_refusal g lib xs = None \<Longrightarrow>
   begun g lib (xs @ ys) = xs @ begun g lib ys \<and>
   first_refusal g lib (xs @ ys) = first_refusal g lib ys \<and>
   sent g lib (xs @ ys) = sent g lib xs @ sent g lib ys"
  by (induction xs) (auto simp: sent_def split: option.splits)

lemma begun_stops:
  "first_refusal g lib xs \<noteq> None \<Longrightarrow> begun g lib (xs @ ys) = begun g lib xs"
  by (induction xs) (auto split: option.splits)

lemma begun_initial: "\<exists>rest. xs = begun g lib xs @ rest"
  by (induction xs) auto

lemma set_begun: "i \<in> set (begun g lib xs) \<Longrightarrow> i \<in> set xs"
  by (induction xs) (auto split: if_splits)

lemma sent_origin:
  "m \<in> set (sent g lib xs) \<Longrightarrow> \<exists>j\<in>set xs. m \<in> set (device_samples g lib j)"
  by (auto simp: sent_def dest: set_begun set_accepted)

lemma sorted_begun: "sorted xs \<Longrightarrow> sorted (begun g lib xs)"
proof -
  assume s: "sorted xs"
  from begun_initial [of xs g lib] obtain rest where "xs = begun g lib xs @ rest" ..
  with s show ?thesis by (metis sorted_append)
qed

lemma sorted_sent: "sorted xs \<Longrightarrow> sorted (map index_of (sent g lib xs))"
  unfolding sent_def
  by (rule sorted_concat_by_key)
     (auto simp: sorted_begun dest: set_accepted index_of_device_samples)

lemma begun_cong:
  "(\<And>i. i \<in> set xs \<Longrightarrow> device_samples g lib1 i = device_samples g lib2 i) \<Longrightarrow>
   begun g lib1 xs = begun g lib2 xs \<and> first_refusal g lib1 xs = first_refusal g lib2 xs \<and>
   sent g lib1 xs = sent g lib2 xs"
  by (induction xs) (auto simp: sent_def split: option.splits)

lemma begun_next:
  assumes "distinct (as @ k # k' # rest)" and "k \<in> set (begun g lib (as @ k # k' # rest))"
    and "refusal (device_samples g lib k) = None"
  shows "k' \<in> set (begun g lib (as @ k # k' # rest))"
proof (cases "first_refusal g lib as")
  case None
  with assms(3) show ?thesis by (simp add: begun_append)
next
  case (Some p)
  then have "begun g lib (as @ k # k' # rest) = begun g lib as"
    by (simp add: begun_stops)
  with assms(2) have "k \<in> set as" by (auto dest: set_begun)
  with assms(1) show ?thesis by simp
qed

section \<open>Whole scrapes\<close>

lemma Update_eq:
  "\<exists>st' ls. Update lib st = (st', outcome (self st) lib) \<and> self st' = self st \<and>
     sink st' = sink st @ sent (self st) lib (scrape_indices lib) \<and>
     logged st' = logged st @ ls \<and>
     calls st' = calls st @ CallDeviceGetCount #
       concat (map (device_calls lib) (begun (self st) lib (scrape_indices lib)))"
proof (cases "snd (DeviceGetCount lib) \<noteq> SUCCESS \<or> fst (DeviceGetCount lib) = 0")
  case True
  then have i: "scrape_indices lib = []"
    by (cases "DeviceGetCount lib") (auto simp: scrape_indices_def)
  from True have o: "outcome (self st) lib =
      Returned (Some (if snd (DeviceGetCount lib) \<noteq> SUCCESS
        then Errorf ''could not retrieve GPU count: %v'' (snd (DeviceGetCount lib))
        else ErrorsNew ''no NVIDIA GPUs found''))"
    by (cases "DeviceGetCount lib") (auto simp: outcome_def)
  from Update_fails [OF prod.collapse [symmetric] True, of st] obtain st' ls where
    "Update lib st = (st', Returned (Some (if snd (DeviceGetCount lib) \<noteq> SUCCESS
        then Errorf ''could not retrieve GPU count: %v'' (snd (DeviceGetCount lib))
        else ErrorsNew ''no NVIDIA GPUs found'')))"
    "self st' = self st" "sink st' = sink st" "logged st' = logged st @ ls"
    "calls st' = calls st @ [CallDeviceGetCount]"
    by blast
  then show ?thesis
    by (intro exI [of _ st'] exI [of _ ls]) (simp add: i o sent_def)
next
  case False
  let ?n = "fst (DeviceGetCount lib)"
  from False have c: "DeviceGetCount lib = (?n, SUCCESS)" and nz: "?n \<noteq> 0"
    by (simp_all add: prod_eq_iff)
  from False have i: "scrape_indices lib = [0..?n - 1]"
    by (cases "DeviceGetCount lib") (auto simp: scrape_indices_def)
  from False have o: "outcome (self st) lib = ending (first_refusal (self st) lib [0..?n - 1])"
    by (cases "DeviceGetCount lib") (auto simp: outcome_def)
  from Update_spec [OF c nz, of st] obtain st' ls where
    "Update lib st = (st', ending (first_refusal (self st) lib [0..?n - 1]))"
    "self st' = self st"
    "sink st' = sink st @ sent (self st) lib [0..?n - 1]"
    "logged st' = logged st @ ls"
    "calls st' = calls st @ CallDeviceGetCount #
        concat (map (device_calls lib) (begun (self st) lib [0..?n - 1]))"
    by blast
  then show ?thesis
    by (intro exI [of _ st'] exI [of _ ls]) (simp add: i o)
qed

lemma scrape_indices_ok:
  "DeviceGetCount lib = (count, SUCCESS) \<Longrightarrow> count \<noteq> 0 \<Longrightarrow> scrape_indices lib = [0..count - 1]"
  by (simp add: scrape_indices_def)

lemma filter_sent_none:
  assumes "descs_ok g" and "i \<notin> set ys"
  shows "filter (\<lambda>m. label m ''gpu_index'' = Some (Itoa i)) (sent g lib ys) = []"
proof -
  have "label m ''gpu_index'' \<noteq> Some (Itoa i)" if "m \<in> set (sent g lib ys)" for m
  proof -
    from sent_origin [OF that] obtain j where j: "j \<in> set ys"
      and m: "m \<in> set (device_samples g lib j)" by blast
    from j assms(2) have "j \<noteq> i" by auto
    with label_device_samples [OF assms(1) m] show ?thesis by (auto dest: Itoa_inject)
  qed
  then show ?thesis by (simp add: filter_empty_conv)
qed

lemma handle_call_in_trace:
  "CallDeviceGetHandleByIndex k \<in> set (CallDeviceGetCount # concat (map (device_calls lib) P))
     \<longleftrightarrow> k \<in> set P"
  by (auto simp: device_calls_def Let_def split: if_splits)

lemma fqNames_new:
  "nspace \<noteq> [] \<Longrightarrow>
   map fqName (descs (new_gpuCollector scheme nspace lg)) =
     [nspace @ ''_gpu_utilisation_percentage'', nspace @ ''_gpu_temperature_celsius'',
      nspace @ ''_gpu_memory_total_bytes'', nspace @ ''_gpu_memory_used_bytes'',
      nspace @ ''_gpu_memory_free_bytes'', nspace @ ''_gpu_info'']"
  by (simp add: descs_def new_gpuCollector_def NewDesc_def BuildFQName_def
        gpuCollectorSubsystem_def)

lemma fresh_descs_valid: "descs_valid (self fresh)"
  by (simp add: fresh_def descs_valid_def descs_def new_gpuCollector_def NewDesc_def
        BuildFQName_def gpuCollectorSubsystem_def IsValidMetricName_def
        IsValidLegacyMetricName_def is_letter_def is_digit_def checkLabelName_def
        IsValidLabelName_def ValidString_def utf8_step_def)

lemma bad_name_first_run:
  "Update bad_name_first fresh =
     (fresh\<lparr>calls := [CallDeviceGetCount, CallDeviceGetHandleByIndex 0, CallGetName 0,
                       CallGetUtilizationRates 0, CallGetTemperature 0 TEMPERATURE_GPU,
                       CallGetMemoryInfo 0]\<rparr>,
      Panicked (Panic ''label value is not valid UTF-8''))"
  by (simp add: Update_def bad_name_first_def loop.simps loop_body_def called_def
        gpu_bad_name_def gpuA_def export_metrics_def send_def and_then_def
        MustNewConstMetric_def Let_def fresh_def new_gpuCollector_def NewDesc_def
        BuildFQName_def gpuCollectorSubsystem_def IsValidMetricName_def
        IsValidLegacyMetricName_def is_letter_def is_digit_def checkLabelName_def
        IsValidLabelName_def ValidString_def utf8_step_def SUCCESS_def TEMPERATURE_GPU_def)

lemma scrape_up_to:
  assumes "descs_ok g" and "descs_valid g" and "0 \<le> i" and "i < n"
    and "\<forall>j. 0 \<le> j \<and> j \<le> i \<and> fully_readable lib j \<longrightarrow> ValidString (name_at lib j)"
  shows "filter (\<lambda>m. label m ''gpu_index'' = Some (Itoa i)) (sent g lib [0..n - 1]) =
           device_samples g lib i"
proof -
  from assms(3,4) have sp: "[0..n - 1] = [0..i] @ [i + 1..n - 1]"
    by (intro upto_split2) simp_all
  have ok: "refusal (device_samples g lib j) = None" if "j \<in> set [0..i]" for j
    using that assms(5) by (intro refusal_device_samples [OF assms(1,2)]) simp
  from begun_all [of "[0..i]" g lib, OF ok] have
    f: "first_refusal g lib [0..i] = None"
    and s: "sent g lib [0..i] = concat (map (device_samples g lib) [0..i])"
    by simp_all
  from begun_append [OF f, of "[i + 1..n - 1]"] s sp have
    "sent g lib [0..n - 1] =
       concat (map (device_samples g lib) [0..i]) @ sent g lib [i + 1..n - 1]"
    by simp
  moreover have "filter (\<lambda>m. label m ''gpu_index'' = Some (Itoa i))
      (concat (map (device_samples g lib) [0..i])) = device_samples g lib i"
    using samples_of_index [OF assms(1,3), of "i + 1" lib] by simp
  moreover have "filter (\<lambda>m. label m ''gpu_index'' = Some (Itoa i))
      (sent g lib [i + 1..n - 1]) = []"
    by (rule filter_sent_none [OF assms(1)]) simp
  ultimately show ?thesis by simp
qed

section \<open>Claims\<close>

text \<open>
  C1. Some device that reads cleanly may still get no sample: when a device's
  name, read with \<open>SUCCESS\<close>, is not valid UTF-8, the client refuses the first
  sample built with it and \<open>Update\<close> panics there. What holds is this. Let
  the descriptors have passed the client's validation, and let no fully
  readable device at an index up to \<open>i\<close> put a name on its samples that is not
  valid UTF-8. Then a device \<open>i\<close> below the reported count whose handle,
  utilization, temperature and memory reads all succeed contributes exactly
  six samples to the scrape: the samples carrying the decimal numeral of \<open>i\<close>
  as their \<^verbatim>\<open>gpu_index\<close> are the utilization, temperature, memory-total,
  memory-used, memory-free and info gauges, in this order, the info gauge with
  value 1, and each carries the numeral of \<open>i\<close> and the device's name as its
  two label values. With a count of two and both devices readable under valid
  names, \<open>Update\<close> returns nil and the scrape sends twelve samples, six with
  index label 0 followed by six with index label 1.
\<close>

theorem Update_six_samples_per_readable_device:
  assumes "self st = new_gpuCollector scheme nspace lg" and "descs_valid (self st)"
    and "DeviceGetCount lib = (count, SUCCESS)"
    and "0 \<le> i" and "i < count"
    and "DeviceGetHandleByIndex lib i = (d, SUCCESS)"
    and "GetUtilizationRates d = (util, SUCCESS)"
    and "GetTemperature d TEMPERATURE_GPU = (temp, SUCCESS)"
    and "GetMemoryInfo d = (mem, SUCCESS)"
    and "\<forall>j. 0 \<le> j \<and> j \<le> i \<and> fully_readable lib j \<longrightarrow> ValidString (name_at lib j)"
  shows "\<exists>st' r new. Update lib st = (st', r) \<and> sink st' = sink st @ new \<and>
     filter (\<lambda>m. label m ''gpu_index'' = Some (Itoa i)) new =
       [\<lparr>desc = gpuUtilizationDesc (self st), valType = GaugeValue,
         val = float64_of_uint32 (Gpu util), labelValues = [Itoa i, device_name d]\<rparr>,
        \<lparr>desc = gpuTemperatureDesc (self st), valType = GaugeValue,
         val = float64_of_uint32 temp, labelValues = [Itoa i, device_name d]\<rparr>,
        \<lparr>desc = gpuMemoryTotalDesc (self st), valType = GaugeValue,
         val = float64_of_uint64 (Total mem), labelValues = [Itoa i, device_name d]\<rparr>,
        \<lparr>desc = gpuMemoryUsedDesc (self st), valType = GaugeValue,
         val = float64_of_uint64 (Used mem), labelValues = [Itoa i, device_name d]\<rparr>,
        \<lparr>desc = gpuMemoryFreeDesc (self st), valType = GaugeValue,
         val = float64_of_uint64 (Free mem), labelValues = [Itoa i, device_name d]\<rparr>,
        \<lparr>desc = gpuInfoDesc (self st), valType = GaugeValue,
         val = 1, labelValues = [Itoa i, device_name d]\<rparr>] \<and>
     list_all (\<lambda>m. label m ''gpu_index'' = Some (Itoa i) \<and>
                    label m ''gpu_name'' = Some (device_name d))
       (filter (\<lambda>m. label m ''gpu_index'' = Some (Itoa i)) new) \<and>
     decimal_of (Itoa i) i \<and>
     (count = 2 \<and> fully_readable lib 0 \<and> fully_readable lib 1 \<and>
      ValidString (name_at lib 0) \<and> ValidString (name_at lib 1) \<longrightarrow>
        r = Returned None \<and> length new = 12 \<and>
        map (\<lambda>m. label m ''gpu_index'') new = replicate 6 (Some ''0'') @ replicate 6 (Some ''1''))"
proof -
  let ?g = "self st"
  let ?new = "sent ?g lib [0..count - 1]"
  let ?r = "ending (first_refusal ?g lib [0..count - 1])"
  have ok: "descs_ok ?g" using assms(1) by (simp add: descs_ok_new)
  have nz: "count \<noteq> 0" using assms(4,5) by simp
  from Update_spec [OF assms(3) nz, of st] obtain st' where
    u: "Update lib st = (st', ?r)" and k: "sink st' = sink st @ ?new"
    by blast
  have fr: "fully_readable lib i"
    using assms(6-9) by (simp add: fully_readable_def)
  have ds: "device_samples ?g lib i = six_samples ?g i (device_name d) util temp mem"
    using fr assms(6-9) by (simp add: device_samples_def)
  have f: "filter (\<lambda>m. label m ''gpu_index'' = Some (Itoa i)) ?new =
             six_samples ?g i (device_name d) util temp mem"
    using scrape_up_to [OF ok assms(2,4,5,10)] ds by simp
  have l: "list_all (\<lambda>m. label m ''gpu_index'' = Some (Itoa i) \<and>
                    label m ''gpu_name'' = Some (device_name d))
       (six_samples ?g i (device_name d) util temp mem)"
    using label_six_samples [OF ok] by (auto simp: list_all_iff)
  have two: "?r = Returned None \<and> length ?new = 12 \<and>
        map (\<lambda>m. label m ''gpu_index'') ?new = replicate 6 (Some ''0'') @ replicate 6 (Some ''1'')"
    if c: "count = 2" and r0: "fully_readable lib 0" and r1: "fully_readable lib 1"
      and v0: "ValidString (name_at lib 0)" and v1: "ValidString (name_at lib 1)"
  proof -
    have up: "[0..count - 1] = [0, 1]" using c by (simp add: upto_rec1)
    have "refusal (device_samples ?g lib j) = None" if "j \<in> set [0, 1]" for j
      using that v0 v1 by (intro refusal_device_samples [OF ok assms(2)]) auto
    from begun_all [of "[0, 1]" ?g lib, OF this] up have
      fr: "first_refusal ?g lib [0..count - 1] = None"
      and se: "?new = device_samples ?g lib 0 @ device_samples ?g lib 1"
      by simp_all
    have i0: "Itoa 0 = ''0''" and i1: "Itoa 1 = ''1''"
      by (simp_all add: Itoa_def digits_of.simps digit_char_def)
    have m0: "map (\<lambda>m. label m ''gpu_index'') (device_samples ?g lib 0) = replicate 6 (Some ''0'')"
      using r0 ok i0
      by (simp add: device_samples_def six_samples_def Let_def label_def descs_ok_def descs_def
            eval_nat_numeral)
    have m1: "map (\<lambda>m. label m ''gpu_index'') (device_samples ?g lib 1) = replicate 6 (Some ''1'')"
      using r1 ok i1
      by (simp add: device_samples_def six_samples_def Let_def label_def descs_ok_def descs_def
            eval_nat_numeral)
    show ?thesis using fr se m0 m1 r0 r1 by (simp add: length_device_samples ending_def)
  qed
  show ?thesis
    by (rule exI [of _ st'], rule exI [of _ ?r], rule exI [of _ ?new])
       (use u k f l two decimal_of_Itoa [OF assms(4)] in \<open>simp add: six_samples_def\<close>)
qed

theorem Update_six_samples_per_readable_device_witness:
  "self fresh = new_gpuCollector LegacyValidation ''node'' (Logger 0) \<and>
   descs_valid (self fresh) \<and>
   DeviceGetCount two_gpus = (2, SUCCESS) \<and> (0 :: int) \<le> 1 \<and> (1 :: int) < 2 \<and>
   DeviceGetHandleByIndex two_gpus 1 = (gpuB, SUCCESS) \<and>
   GetUtilizationRates gpuB = (\<lparr>Gpu = 10, Memory = 0\<rparr>, SUCCESS) \<and>
   GetTemperature gpuB TEMPERATURE_GPU = (30, SUCCESS) \<and>
   GetMemoryInfo gpuB = (\<lparr>Total = 200, Free = 200, Used = 0\<rparr>, SUCCESS) \<and>
   fully_readable two_gpus 0 \<and> fully_readable two_gpus 1 \<and>
   ValidString (name_at two_gpus 0) \<and> ValidString (name_at two_gpus 1) \<and>
   (\<exists>st' new. Update two_gpus fresh = (st', Returned None) \<and> sink st' = new \<and>
      length new = 12 \<and>
      map (\<lambda>m. label m ''gpu_index'') new = replicate 6 (Some ''0'') @ replicate 6 (Some ''1'') \<and>
      map val (filter (\<lambda>m. label m ''gpu_index'' = Some ''1'') new) = [10, 30, 200, 0, 200, 1] \<and>
      map labelValues (filter (\<lambda>m. label m ''gpu_index'' = Some ''1'') new) =
        replicate 6 [''1'', ''B''])"
proof -
  have h1: "self fresh = new_gpuCollector LegacyValidation ''node'' (Logger 0)"
    by (simp add: fresh_def)
  note h1' = fresh_descs_valid
  have h2: "DeviceGetCount two_gpus = (2, SUCCESS)"
    by (simp add: two_gpus_def)
  have h3: "(0 :: int) \<le> 1" and h4: "(1 :: int) < 2"
    by simp_all
  have h5: "DeviceGetHandleByIndex two_gpus 1 = (gpuB, SUCCESS)"
    by (simp add: two_gpus_def)
  have h6: "GetUtilizationRates gpuB = (\<lparr>Gpu = 10, Memory = 0\<rparr>, SUCCESS)"
    by (simp add: gpuB_def)
  have h7: "GetTemperature gpuB TEMPERATURE_GPU = (30, SUCCESS)"
    by (simp add: gpuB_def)
  have h8: "GetMemoryInfo gpuB = (\<lparr>Total = 200, Free = 200, Used = 0\<rparr>, SUCCESS)"
    by (simp add: gpuB_def)
  have r0: "fully_readable two_gpus 0" and r1: "fully_readable two_gpus 1"
    by (simp_all add: fully_readable_def two_gpus_def gpuA_def gpuB_def)
  have v0: "ValidString (name_at two_gpus 0)" and v1: "ValidString (name_at two_gpus 1)"
    by (simp_all add: name_at_def device_name_def two_gpus_def gpuA_def gpuB_def
          ValidString_def utf8_step_def)
  have h9: "\<forall>j. 0 \<le> j \<and> j \<le> 1 \<and> fully_readable two_gpus j \<longrightarrow>
              ValidString (name_at two_gpus j)"
  proof (intro allI impI)
    fix j :: int assume "0 \<le> j \<and> j \<le> 1 \<and> fully_readable two_gpus j"
    then have "j = 0 \<or> j = 1" by arith
    with v0 v1 show "ValidString (name_at two_gpus j)" by auto
  qed
  have i1: "Itoa 1 = ''1''"
    by (simp add: Itoa_def digits_of.simps digit_char_def)
  have nm: "device_name gpuB = ''B''"
    by (simp add: device_name_def gpuB_def)
  have v: "float64_of_uint32 10 = 10" "float64_of_uint32 30 = 30"
    "float64_of_uint64 200 = 200" "float64_of_uint64 0 = 0"
    by (simp_all add: float64_of_uint32_def float64_of_uint64_def round53_def
          excess_bits.simps)
  from Update_six_samples_per_readable_device [OF h1 h1' h2 h3 h4 h5 h6 h7 h8 h9] r0 r1 v0 v1
  obtain st' r new where
    u: "Update two_gpus fresh = (st', r)" and k: "sink st' = sink fresh @ new"
    and f: "filter (\<lambda>m. label m ''gpu_index'' = Some (Itoa 1)) new =
       [\<lparr>desc = gpuUtilizationDesc (self fresh), valType = GaugeValue,
         val = float64_of_uint32 (Gpu \<lparr>Gpu = 10, Memory = 0\<rparr>),
         labelValues = [Itoa 1, device_name gpuB]\<rparr>,
        \<lparr>desc = gpuTemperatureDesc (self fresh), valType = GaugeValue,
         val = float64_of_uint32 30, labelValues = [Itoa 1, device_name gpuB]\<rparr>,
        \<lparr>desc = gpuMemoryTotalDesc (self fresh), valType = GaugeValue,
         val = float64_of_uint64 (Total \<lparr>Total = 200, Free = 200, Used = 0\<rparr>),
         labelValues = [Itoa 1, device_name gpuB]\<rparr>,
        \<lparr>desc = gpuMemoryUsedDesc (self fresh), valType = GaugeValue,
         val = float64_of_uint64 (Used \<lparr>Total = 200, Free = 200, Used = 0\<rparr>),
         labelValues = [Itoa 1, device_name gpuB]\<rparr>,
        \<lparr>desc = gpuMemoryFreeDesc (self fresh), valType = GaugeValue,
         val = float64_of_uint64 (Free \<lparr>Total = 200, Free = 200, Used = 0\<rparr>),
         labelValues = [Itoa 1, device_name gpuB]\<rparr>,
        \<lparr>desc = gpuInfoDesc (self fresh), valType = GaugeValue,
         val = 1, labelValues = [Itoa 1, device_name gpuB]\<rparr>]"
    and rn: "r = Returned None"
    and n: "length new = 12"
    and ix: "map (\<lambda>m. label m ''gpu_index'') new =
               replicate 6 (Some ''0'') @ replicate 6 (Some ''1'')"
    by auto
  from u rn have u': "Update two_gpus fresh = (st', Returned None)" by simp
  from k have k': "sink st' = new" by (simp add: fresh_def)
  from f have fv: "map val (filter (\<lambda>m. label m ''gpu_index'' = Some ''1'') new) =
      [10, 30, 200, 0, 200, 1]"
    by (simp add: i1 v)
  from f have fl: "map labelValues (filter (\<lambda>m. label m ''gpu_index'' = Some ''1'') new) =
        replicate 6 [''1'', ''B'']"
    by (simp add: i1 nm eval_nat_numeral)
  have
    "\<exists>st' new. Update two_gpus fresh = (st', Returned None) \<and> sink st' = new \<and>
      length new = 12 \<and>
      map (\<lambda>m. label m ''gpu_index'') new = replicate 6 (Some ''0'') @ replicate 6 (Some ''1'') \<and>
      map val (filter (\<lambda>m. label m ''gpu_index'' = Some ''1'') new) = [10, 30, 200, 0, 200, 1] \<and>
      map labelValues (filter (\<lambda>m. label m ''gpu_index'' = Some ''1'') new) =
        replicate 6 [''1'', ''B'']"
    by (rule exI [of _ st'], rule exI [of _ new]) (intro conjI u' k' n ix fv fl)
  with h1 h1' h2 h3 h4 h5 h6 h7 h8 r0 r1 v0 v1 show ?thesis by (intro conjI)
qed

theorem readable_device_with_bad_name_gets_no_samples:
  "DeviceGetCount bad_name_first = (2, SUCCESS) \<and>
   fully_readable bad_name_first 0 \<and> fully_readable bad_name_first 1 \<and>
   descs_valid (self fresh) \<and>
   Update bad_name_first fresh =
     (fresh\<lparr>calls := [CallDeviceGetCount, CallDeviceGetHandleByIndex 0, CallGetName 0,
                       CallGetUtilizationRates 0, CallGetTemperature 0 TEMPERATURE_GPU,
                       CallGetMemoryInfo 0]\<rparr>,
      Panicked (Panic ''label value is not valid UTF-8'')) \<and>
   sink (fst (Update bad_name_first fresh)) = []"
proof -
  note u = bad_name_first_run
  have c: "DeviceGetCount bad_name_first = (2, SUCCESS)"
    by (simp add: bad_name_first_def)
  have r: "fully_readable bad_name_first 0" "fully_readable bad_name_first 1"
    by (simp_all add: fully_readable_def bad_name_first_def gpu_bad_name_def gpuA_def gpuB_def)
  from u have s: "sink (fst (Update bad_name_first fresh)) = []"
    by (simp add: fresh_def)
  from c r fresh_descs_valid u s show ?thesis by (intro conjI)
qed

text \<open>
  C2. Whenever the device-count query fails, or succeeds and reports zero
  devices, \<open>Update\<close> returns an error and the channel holds exactly what it
  held before: nothing is sent.
\<close>

theorem Update_count_failure_emits_nothing:
  assumes "DeviceGetCount lib = (count, ret)" and "ret \<noteq> SUCCESS \<or> count = 0"
  shows "\<exists>st' e. Update lib st = (st', Returned (Some e)) \<and> sink st' = sink st"
  using Update_fails [OF assms, of st] by blast

theorem Update_count_failure_emits_nothing_witness:
  "DeviceGetCount count_fails = (0, 999) \<and> (999 :: Return) \<noteq> SUCCESS \<and>
   (\<exists>st' e. Update count_fails fresh = (st', Returned (Some e)) \<and> sink st' = sink fresh) \<and>
   DeviceGetCount zero_gpus = (0, SUCCESS) \<and>
   (\<exists>st' e. Update zero_gpus fresh = (st', Returned (Some e)) \<and> sink st' = sink fresh)"
proof -
  have a: "DeviceGetCount count_fails = (0, 999)"
    by (simp add: count_fails_def two_gpus_def)
  have b: "(999 :: Return) \<noteq> SUCCESS"
    by (simp add: SUCCESS_def)
  have c: "DeviceGetCount zero_gpus = (0, SUCCESS)"
    by (simp add: zero_gpus_def two_gpus_def)
  from b have b': "(999 :: Return) \<noteq> SUCCESS \<or> (0 :: int) = 0" by simp
  have c': "SUCCESS \<noteq> SUCCESS \<or> (0 :: int) = 0" by simp
  note r1 = Update_count_failure_emits_nothing [OF a b', of fresh]
  note r2 = Update_count_failure_emits_nothing [OF c c', of fresh]
  from a b r1 c r2 show ?thesis by (intro conjI)
qed

text \<open>
  C3. One lost handle among otherwise readable devices does not always leave
  \<open>(N - 1) \<sqdot> 6\<close> samples and a nil return: a readable device whose name is
  not valid UTF-8 makes \<open>Update\<close> panic. What holds is this. Let the
  descriptors have passed the client's validation. With a successful count
  \<open>N \<ge> 1\<close>, \<open>Update\<close> never returns an error, whatever the devices answer. If
  exactly one index \<open>k\<close> below \<open>N\<close> fails handle retrieval and every other
  index is fully readable under a name that is valid UTF-8, \<open>Update\<close> returns
  nil, the scrape sends \<open>(N - 1) \<sqdot> 6\<close> samples, and none of them carries the
  numeral of \<open>k\<close> as its \<^verbatim>\<open>gpu_index\<close>.
\<close>

theorem Update_skips_device_without_handle:
  assumes "self st = new_gpuCollector scheme nspace lg" and "descs_valid (self st)"
    and "DeviceGetCount lib = (N, SUCCESS)" and "1 \<le> N"
  shows "\<exists>st' r new. Update lib st = (st', r) \<and> sink st' = sink st @ new \<and>
     (\<forall>e. r \<noteq> Returned (Some e)) \<and>
     (\<forall>k. 0 \<le> k \<and> k < N \<and> snd (DeviceGetHandleByIndex lib k) \<noteq> SUCCESS \<and>
          (\<forall>j. 0 \<le> j \<and> j < N \<and> j \<noteq> k \<longrightarrow>
               fully_readable lib j \<and> ValidString (name_at lib j)) \<longrightarrow>
          r = Returned None \<and> length new = nat (N - 1) * 6 \<and>
          list_all (\<lambda>m. label m ''gpu_index'' \<noteq> Some (Itoa k)) new)"
proof -
  let ?g = "self st"
  let ?new = "sent ?g lib [0..N - 1]"
  let ?r = "ending (first_refusal ?g lib [0..N - 1])"
  have ok: "descs_ok ?g" using assms(1) by (simp add: descs_ok_new)
  have nz: "N \<noteq> 0" using assms(4) by simp
  from Update_spec [OF assms(3) nz, of st] obtain st' where
    u: "Update lib st = (st', ?r)" and k: "sink st' = sink st @ ?new"
    by blast
  have ne: "\<forall>e. ?r \<noteq> Returned (Some e)"
    by (simp add: ending_def split: option.splits)
  have one: "?r = Returned None \<and> length ?new = nat (N - 1) * 6 \<and>
        list_all (\<lambda>m. label m ''gpu_index'' \<noteq> Some (Itoa k)) ?new"
    if k0: "0 \<le> k" and kN: "k < N" and h: "snd (DeviceGetHandleByIndex lib k) \<noteq> SUCCESS"
      and others: "\<forall>j. 0 \<le> j \<and> j < N \<and> j \<noteq> k \<longrightarrow>
               fully_readable lib j \<and> ValidString (name_at lib j)" for k
  proof -
    from h have nr: "\<not> fully_readable lib k" by (simp add: fully_readable_def)
    then have e: "device_samples ?g lib k = []" by (simp add: device_samples_def)
    have "refusal (device_samples ?g lib j) = None" if "j \<in> set [0..N - 1]" for j
    proof (cases "j = k")
      case True
      with nr show ?thesis by (simp add: refusal_unreadable)
    next
      case False
      with that others show ?thesis
        by (intro refusal_device_samples [OF ok assms(2)]) simp
    qed
    from begun_all [of "[0..N - 1]" ?g lib, OF this] have
      fr: "first_refusal ?g lib [0..N - 1] = None"
      and se: "?new = concat (map (device_samples ?g lib) [0..N - 1])"
      by simp_all
    have len: "length (concat (map (device_samples ?g lib) [0..N - 1])) = nat (N - 1) * 6"
      using k0 kN others e
      by (intro length_all_but_one) (simp_all add: length_device_samples)
    have "list_all (\<lambda>m. label m ''gpu_index'' \<noteq> Some (Itoa k)) ?new"
    proof -
      have "label m ''gpu_index'' \<noteq> Some (Itoa k)" if "m \<in> set ?new" for m
      proof -
        from sent_origin [OF that] obtain j where
          m: "m \<in> set (device_samples ?g lib j)" by blast
        with e have "j \<noteq> k" by auto
        with label_device_samples [OF ok m] show ?thesis by (auto dest: Itoa_inject)
      qed
      then show ?thesis by (simp add: list_all_iff)
    qed
    with fr se len show ?thesis by (simp add: ending_def)
  qed
  show ?thesis
    by (rule exI [of _ st'], rule exI [of _ ?r], rule exI [of _ ?new])
       (use u k ne one in blast)
qed

theorem Update_skips_device_without_handle_witness:
  "self fresh = new_gpuCollector LegacyValidation ''node'' (Logger 0) \<and>
   descs_valid (self fresh) \<and>
   DeviceGetCount middle_gpu_lost = (3, SUCCESS) \<and> (1 :: int) \<le> 3 \<and>
   (0 :: int) \<le> 1 \<and> (1 :: int) < 3 \<and>
   snd (DeviceGetHandleByIndex middle_gpu_lost 1) \<noteq> SUCCESS \<and>
   fully_readable middle_gpu_lost 0 \<and> fully_readable middle_gpu_lost 2 \<and>
   ValidString (name_at middle_gpu_lost 0) \<and> ValidString (name_at middle_gpu_lost 2) \<and>
   (\<exists>st' new. Update middle_gpu_lost fresh = (st', Returned None) \<and> sink st' = new \<and>
      length new = 12 \<and>
      list_all (\<lambda>m. label m ''gpu_index'' \<noteq> Some ''1'') new)"
proof -
  have h1: "self fresh = new_gpuCollector LegacyValidation ''node'' (Logger 0)"
    by (simp add: fresh_def)
  note h1' = fresh_descs_valid
  have h2: "DeviceGetCount middle_gpu_lost = (3, SUCCESS)"
    by (simp add: middle_gpu_lost_def)
  have h3: "(1 :: int) \<le> 3" and k0: "(0 :: int) \<le> 1" and k3: "(1 :: int) < 3"
    by simp_all
  have lost: "snd (DeviceGetHandleByIndex middle_gpu_lost 1) \<noteq> SUCCESS"
    by (simp add: middle_gpu_lost_def SUCCESS_def)
  have r0: "fully_readable middle_gpu_lost 0" and r2: "fully_readable middle_gpu_lost 2"
    by (simp_all add: fully_readable_def middle_gpu_lost_def gpuA_def gpuB_def)
  have v0: "ValidString (name_at middle_gpu_lost 0)"
    and v2: "ValidString (name_at middle_gpu_lost 2)"
    by (simp_all add: name_at_def device_name_def middle_gpu_lost_def gpuA_def gpuB_def
          ValidString_def utf8_step_def)
  have others: "\<forall>j. 0 \<le> j \<and> j < 3 \<and> j \<noteq> 1 \<longrightarrow>
      fully_readable middle_gpu_lost j \<and> ValidString (name_at middle_gpu_lost j)"
  proof (intro allI impI)
    fix j :: int assume "0 \<le> j \<and> j < 3 \<and> j \<noteq> 1"
    then have "j = 0 \<or> j = 2" by arith
    with r0 r2 v0 v2
    show "fully_readable middle_gpu_lost j \<and> ValidString (name_at middle_gpu_lost j)"
      by auto
  qed
  have i1: "Itoa 1 = ''1''"
    by (simp add: Itoa_def digits_of.simps digit_char_def)
  from Update_skips_device_without_handle [OF h1 h1' h2 h3] obtain st' r new where
    u: "Update middle_gpu_lost fresh = (st', r)" and s: "sink st' = sink fresh @ new"
    and a: "\<forall>k. 0 \<le> k \<and> k < 3 \<and> snd (DeviceGetHandleByIndex middle_gpu_lost k) \<noteq> SUCCESS \<and>
          (\<forall>j. 0 \<le> j \<and> j < 3 \<and> j \<noteq> k \<longrightarrow>
               fully_readable middle_gpu_lost j \<and> ValidString (name_at middle_gpu_lost j)) \<longrightarrow>
          r = Returned None \<and> length new = nat (3 - 1) * 6 \<and>
          list_all (\<lambda>m. label m ''gpu_index'' \<noteq> Some (Itoa k)) new"
    by blast
  from a [rule_format, of 1] k0 k3 lost others have
    rn: "r = Returned None" and
    n: "length new = 12" and l: "list_all (\<lambda>m. label m ''gpu_index'' \<noteq> Some ''1'') new"
    by (simp_all add: i1)
  from u rn have u': "Update middle_gpu_lost fresh = (st', Returned None)" by simp
  from s have s': "sink st' = new" by (simp add: fresh_def)
  have "\<exists>st' new. Update middle_gpu_lost fresh = (st', Returned None) \<and> sink st' = new \<and>
      length new = 12 \<and> list_all (\<lambda>m. label m ''gpu_index'' \<noteq> Some ''1'') new"
    by (rule exI [of _ st'], rule exI [of _ new]) (intro conjI u' s' n l)
  with h1 h1' h2 h3 k0 k3 lost r0 r2 v0 v2 show ?thesis by (intro conjI)
qed

theorem lost_handle_beside_bad_name_panics:
  "DeviceGetCount lost_then_bad_name = (2, SUCCESS) \<and>
   snd (DeviceGetHandleByIndex lost_then_bad_name 0) \<noteq> SUCCESS \<and>
   fully_readable lost_then_bad_name 1 \<and> descs_valid (self fresh) \<and>
   snd (Update lost_then_bad_name fresh) = Panicked (Panic ''label value is not valid UTF-8'') \<and>
   sink (fst (Update lost_then_bad_name fresh)) = [] \<and>
   length (sink (fst (Update lost_then_bad_name fresh))) \<noteq> nat (2 - 1) * 6"
proof -
  have u: "snd (Update lost_then_bad_name fresh) =
             Panicked (Panic ''label value is not valid UTF-8'') \<and>
           sink (fst (Update lost_then_bad_name fresh)) = []"
    by (simp add: Update_def lost_then_bad_name_def loop.simps loop_body_def called_def
          write_log_def gpu_bad_name_def gpuA_def export_metrics_def send_def and_then_def
          MustNewConstMetric_def Let_def fresh_def new_gpuCollector_def NewDesc_def
          BuildFQName_def gpuCollectorSubsystem_def IsValidMetricName_def
          IsValidLegacyMetricName_def is_letter_def is_digit_def checkLabelName_def
          IsValidLabelName_def ValidString_def utf8_step_def SUCCESS_def TEMPERATURE_GPU_def)
  have c: "DeviceGetCount lost_then_bad_name = (2, SUCCESS)"
    by (simp add: lost_then_bad_name_def)
  have h: "snd (DeviceGetHandleByIndex lost_then_bad_name 0) \<noteq> SUCCESS"
    by (simp add: lost_then_bad_name_def SUCCESS_def)
  have r: "fully_readable lost_then_bad_name 1"
    by (simp add: fully_readable_def lost_then_bad_name_def gpu_bad_name_def gpuA_def)
  from u have n: "length (sink (fst (Update lost_then_bad_name fresh))) \<noteq> nat (2 - 1) * 6"
    by simp
  from c h r fresh_descs_valid u n show ?thesis by (intro conjI) simp_all
qed

text \<open>
  C4. A device \<open>k\<close> whose handle is obtained but whose utilization,
  temperature or memory read fails contributes no sample at all, and the loop
  goes on. From any state, the pass over \<open>k\<close> sends nothing and does not panic,
  and the loop at \<open>k\<close> continues as the loop at \<open>k + 1\<close>. However the scrape
  ends, none of the samples it sent carries the numeral of \<open>k\<close>; if the handle
  of \<open>k\<close> was requested and \<open>k + 1\<close> is below the count, the handle of
  \<open>k + 1\<close> is requested as well; and the handle of \<open>k\<close> is requested whenever
  the descriptors passed validation and no readable device before \<open>k\<close> has a
  name that is not valid UTF-8.
\<close>

theorem Update_skips_device_with_failed_read:
  assumes "self st = new_gpuCollector scheme nspace lg"
    and "DeviceGetCount lib = (count, SUCCESS)"
    and "0 \<le> k" and "k < count"
    and "DeviceGetHandleByIndex lib k = (d, SUCCESS)"
    and "snd (GetUtilizationRates d) \<noteq> SUCCESS \<or>
         snd (GetTemperature d TEMPERATURE_GPU) \<noteq> SUCCESS \<or>
         snd (GetMemoryInfo d) \<noteq> SUCCESS"
  shows "(\<forall>s. \<exists>s'. loop_body lib k s = (s', None) \<and> sink s' = sink s \<and>
               loop lib k count s = loop lib (k + 1) count s') \<and>
     (\<exists>st' r new cs. Update lib st = (st', r) \<and>
        sink st' = sink st @ new \<and> calls st' = calls st @ cs \<and>
        list_all (\<lambda>m. label m ''gpu_index'' \<noteq> Some (Itoa k)) new \<and>
        (CallDeviceGetHandleByIndex k \<in> set cs \<and> k + 1 < count \<longrightarrow>
           CallDeviceGetHandleByIndex (k + 1) \<in> set cs) \<and>
        (descs_valid (self st) \<and>
         (\<forall>j. 0 \<le> j \<and> j < k \<and> fully_readable lib j \<longrightarrow> ValidString (name_at lib j)) \<longrightarrow>
           CallDeviceGetHandleByIndex k \<in> set cs))"
proof -
  let ?g = "self st"
  let ?xs = "[0..count - 1]"
  let ?new = "sent ?g lib ?xs"
  let ?P = "begun ?g lib ?xs"
  let ?cs = "CallDeviceGetCount # concat (map (device_calls lib) ?P)"
  let ?r = "ending (first_refusal ?g lib ?xs)"
  have ok: "descs_ok ?g" using assms(1) by (simp add: descs_ok_new)
  have nz: "count \<noteq> 0" using assms(3,4) by simp
  from assms(5,6) have nr: "\<not> fully_readable lib k"
    by (auto simp: fully_readable_def)
  then have e: "device_samples g' lib k = []" for g'
    by (simp add: device_samples_def)
  have rk: "refusal (device_samples g' lib k) = None" for g'
    using nr by (rule refusal_unreadable)
  have pass: "\<exists>s'. loop_body lib k s = (s', None) \<and> sink s' = sink s \<and>
               loop lib k count s = loop lib (k + 1) count s'" for s
  proof -
    from loop_body_spec [of lib k s] obtain s' where
      b: "loop_body lib k s = (s', refusal (device_samples (self s) lib k))"
      and k: "sink s' = sink s @ accepted (device_samples (self s) lib k)"
      by blast
    from b have b': "loop_body lib k s = (s', None)" by (simp add: rk)
    from k have k': "sink s' = sink s" by (simp add: e accepted_def)
    from b' assms(4) have "loop lib k count s = loop lib (k + 1) count s'"
      by (subst loop.simps) simp
    with b' k' show ?thesis by blast
  qed
  from Update_spec [OF assms(2) nz, of st] obtain st' where
    u: "Update lib st = (st', ?r)" and s: "sink st' = sink st @ ?new"
    and c: "calls st' = calls st @ ?cs"
    by blast
  have none: "list_all (\<lambda>m. label m ''gpu_index'' \<noteq> Some (Itoa k)) ?new"
  proof -
    have "label m ''gpu_index'' \<noteq> Some (Itoa k)" if "m \<in> set ?new" for m
    proof -
      from sent_origin [OF that] obtain j where
        m: "m \<in> set (device_samples ?g lib j)" by blast
      with e [of ?g] have "j \<noteq> k" by auto
      with label_device_samples [OF ok m] show ?thesis by (auto dest: Itoa_inject)
    qed
    then show ?thesis by (simp add: list_all_iff)
  qed
  have nx: "CallDeviceGetHandleByIndex (k + 1) \<in> set ?cs"
    if kc: "CallDeviceGetHandleByIndex k \<in> set ?cs" and lt: "k + 1 < count"
  proof -
    from kc have kP: "k \<in> set ?P" by (rule iffD1 [OF handle_call_in_trace])
    from assms(3) lt have sp: "?xs = [0..k - 1] @ k # (k + 1) # [k + 1 + 1..count - 1]"
    proof -
      from assms(3) lt have "?xs = [0..k - 1] @ k # [k + 1..count - 1]"
        by (intro upto_split3) simp_all
      moreover from lt have "[k + 1..count - 1] = (k + 1) # [k + 1 + 1..count - 1]"
        by (intro upto_rec1) simp
      ultimately show ?thesis by simp
    qed
    have d: "distinct ([0..k - 1] @ k # (k + 1) # [k + 1 + 1..count - 1])"
      using sp distinct_upto [of 0 "count - 1"] by simp
    from begun_next [OF d, of ?g lib] kP sp rk [of ?g] have "k + 1 \<in> set ?P" by simp
    then show ?thesis by (rule iffD2 [OF handle_call_in_trace])
  qed
  have reach: "CallDeviceGetHandleByIndex k \<in> set ?cs"
    if dv: "descs_valid ?g"
      and nm: "\<forall>j. 0 \<le> j \<and> j < k \<and> fully_readable lib j \<longrightarrow> ValidString (name_at lib j)"
  proof -
    from assms(3,4) have sp: "?xs = [0..k - 1] @ k # [k + 1..count - 1]"
      by (intro upto_split3) simp_all
    have "refusal (device_samples ?g lib j) = None" if "j \<in> set [0..k - 1]" for j
      using that nm by (intro refusal_device_samples [OF ok dv]) simp
    from begun_all [of "[0..k - 1]" ?g lib, OF this] have
      "first_refusal ?g lib [0..k - 1] = None" by simp
    from begun_append [OF this, of "k # [k + 1..count - 1]"] sp
    have "k \<in> set ?P" by simp
    then show ?thesis by (rule iffD2 [OF handle_call_in_trace])
  qed
  have "\<exists>st' r new cs. Update lib st = (st', r) \<and>
        sink st' = sink st @ new \<and> calls st' = calls st @ cs \<and>
        list_all (\<lambda>m. label m ''gpu_index'' \<noteq> Some (Itoa k)) new \<and>
        (CallDeviceGetHandleByIndex k \<in> set cs \<and> k + 1 < count \<longrightarrow>
           CallDeviceGetHandleByIndex (k + 1) \<in> set cs) \<and>
        (descs_valid (self st) \<and>
         (\<forall>j. 0 \<le> j \<and> j < k \<and> fully_readable lib j \<longrightarrow> ValidString (name_at lib j)) \<longrightarrow>
           CallDeviceGetHandleByIndex k \<in> set cs)"
    by (rule exI [of _ st'], rule exI [of _ ?r], rule exI [of _ ?new], rule exI [of _ ?cs])
       (use u s c none nx reach in blast)
  with pass show ?thesis by blast
qed

theorem Update_skips_device_with_failed_read_witness:
  "self fresh = new_gpuCollector LegacyValidation ''node'' (Logger 0) \<and>
   DeviceGetCount first_gpu_no_temperature = (2, SUCCESS) \<and>
   (0 :: int) \<le> 0 \<and> (0 :: int) < 2 \<and>
   DeviceGetHandleByIndex first_gpu_no_temperature 0 = (gpu_no_temperature, SUCCESS) \<and>
   snd (GetTemperature gpu_no_temperature TEMPERATURE_GPU) \<noteq> SUCCESS \<and>
   descs_valid (self fresh) \<and>
   (\<exists>s'. loop_body first_gpu_no_temperature 0 fresh = (s', None) \<and> sink s' = [] \<and>
      loop first_gpu_no_temperature 0 2 fresh = loop first_gpu_no_temperature 1 2 s') \<and>
   (\<exists>st' r new cs. Update first_gpu_no_temperature fresh = (st', r) \<and>
      sink st' = new \<and> calls st' = cs \<and>
      list_all (\<lambda>m. label m ''gpu_index'' \<noteq> Some ''0'') new \<and>
      CallDeviceGetHandleByIndex 0 \<in> set cs \<and> CallDeviceGetHandleByIndex 1 \<in> set cs)"
proof -
  have h1: "self fresh = new_gpuCollector LegacyValidation ''node'' (Logger 0)"
    by (simp add: fresh_def)
  have h2: "DeviceGetCount first_gpu_no_temperature = (2, SUCCESS)"
    by (simp add: first_gpu_no_temperature_def)
  have h3: "(0 :: int) \<le> 0" and h4: "(0 :: int) < 2"
    by simp_all
  have h5: "DeviceGetHandleByIndex first_gpu_no_temperature 0 = (gpu_no_temperature, SUCCESS)"
    by (simp add: first_gpu_no_temperature_def)
  have t: "snd (GetTemperature gpu_no_temperature TEMPERATURE_GPU) \<noteq> SUCCESS"
    by (simp add: gpu_no_temperature_def gpuA_def SUCCESS_def)
  then have h6: "snd (GetUtilizationRates gpu_no_temperature) \<noteq> SUCCESS \<or>
         snd (GetTemperature gpu_no_temperature TEMPERATURE_GPU) \<noteq> SUCCESS \<or>
         snd (GetMemoryInfo gpu_no_temperature) \<noteq> SUCCESS"
    by simp
  note dv = fresh_descs_valid
  have i0: "Itoa 0 = ''0''"
    by (simp add: Itoa_def digits_of.simps digit_char_def)
  note inst = Update_skips_device_with_failed_read [OF h1 h2 h3 h4 h5 h6]
  from inst have "\<exists>s'. loop_body first_gpu_no_temperature 0 fresh = (s', None) \<and>
      sink s' = sink fresh \<and>
      loop first_gpu_no_temperature 0 2 fresh = loop first_gpu_no_temperature (0 + 1) 2 s'"
    by blast
  then have a: "\<exists>s'. loop_body first_gpu_no_temperature 0 fresh = (s', None) \<and> sink s' = [] \<and>
      loop first_gpu_no_temperature 0 2 fresh = loop first_gpu_no_temperature 1 2 s'"
    by (simp add: fresh_def)
  from inst obtain st' r new cs where
    u: "Update first_gpu_no_temperature fresh = (st', r)"
    and s: "sink st' = sink fresh @ new" and c: "calls st' = calls fresh @ cs"
    and l: "list_all (\<lambda>m. label m ''gpu_index'' \<noteq> Some (Itoa 0)) new"
    and x: "CallDeviceGetHandleByIndex 0 \<in> set cs \<and> 0 + 1 < (2 :: int) \<longrightarrow>
              CallDeviceGetHandleByIndex (0 + 1) \<in> set cs"
    and y: "descs_valid (self fresh) \<and>
         (\<forall>j. 0 \<le> j \<and> j < 0 \<and> fully_readable first_gpu_no_temperature j \<longrightarrow>
              ValidString (name_at first_gpu_no_temperature j)) \<longrightarrow>
           CallDeviceGetHandleByIndex 0 \<in> set cs"
    by blast
  from s have s': "sink st' = new" by (simp add: fresh_def)
  from c have c': "calls st' = cs" by (simp add: fresh_def)
  from l have l': "list_all (\<lambda>m. label m ''gpu_index'' \<noteq> Some ''0'') new" by (simp add: i0)
  from y dv have y': "CallDeviceGetHandleByIndex 0 \<in> set cs" by auto
  from x y' have x': "CallDeviceGetHandleByIndex 1 \<in> set cs" by simp
  have b: "\<exists>st' r new cs. Update first_gpu_no_temperature fresh = (st', r) \<and>
      sink st' = new \<and> calls st' = cs \<and>
      list_all (\<lambda>m. label m ''gpu_index'' \<noteq> Some ''0'') new \<and>
      CallDeviceGetHandleByIndex 0 \<in> set cs \<and> CallDeviceGetHandleByIndex 1 \<in> set cs"
    by (rule exI [of _ st'], rule exI [of _ r], rule exI [of _ new], rule exI [of _ cs])
       (intro conjI u s' c' l' y' x')
  from h1 h2 h3 h4 h5 t dv a b show ?thesis by (intro conjI)
qed

text \<open>
  C5. A device whose name read fails does not always get its six samples: an
  earlier readable device whose name is not valid UTF-8 makes \<open>Update\<close> panic
  before it is reached. What holds is this. Let the descriptors have passed
  the client's validation, and let no fully readable device before \<open>i\<close> have a
  name that is not valid UTF-8. Then a device \<open>i\<close> whose name read fails while
  its handle, utilization, temperature and memory reads succeed contributes
  its six samples, and each of them carries \<^verbatim>\<open>unknown\<close> as its
  \<^verbatim>\<open>gpu_name\<close>.
\<close>

theorem Update_unknown_name:
  assumes "self st = new_gpuCollector scheme nspace lg" and "descs_valid (self st)"
    and "DeviceGetCount lib = (count, SUCCESS)"
    and "0 \<le> i" and "i < count"
    and "DeviceGetHandleByIndex lib i = (d, SUCCESS)"
    and "snd (GetName d) \<noteq> SUCCESS"
    and "GetUtilizationRates d = (util, SUCCESS)"
    and "GetTemperature d TEMPERATURE_GPU = (temp, SUCCESS)"
    and "GetMemoryInfo d = (mem, SUCCESS)"
    and "\<forall>j. 0 \<le> j \<and> j < i \<and> fully_readable lib j \<longrightarrow> ValidString (name_at lib j)"
  shows "\<exists>st' r new. Update lib st = (st', r) \<and> sink st' = sink st @ new \<and>
     filter (\<lambda>m. label m ''gpu_index'' = Some (Itoa i)) new =
       six_samples (self st) i ''unknown'' util temp mem \<and>
     length (filter (\<lambda>m. label m ''gpu_index'' = Some (Itoa i)) new) = 6 \<and>
     list_all (\<lambda>m. label m ''gpu_name'' = Some ''unknown'')
       (filter (\<lambda>m. label m ''gpu_index'' = Some (Itoa i)) new)"
proof -
  let ?g = "self st"
  let ?new = "sent ?g lib [0..count - 1]"
  let ?r = "ending (first_refusal ?g lib [0..count - 1])"
  have ok: "descs_ok ?g" using assms(1) by (simp add: descs_ok_new)
  have nz: "count \<noteq> 0" using assms(4,5) by simp
  from Update_spec [OF assms(3) nz, of st] obtain st' where
    u: "Update lib st = (st', ?r)" and s: "sink st' = sink st @ ?new"
    by blast
  have ni: "name_at lib i = ''unknown''"
    using assms(6,7) by (simp add: name_at_def device_name_def)
  have vu: "ValidString ''unknown''"
    by (simp add: ValidString_def utf8_step_def)
  have names: "\<forall>j. 0 \<le> j \<and> j \<le> i \<and> fully_readable lib j \<longrightarrow> ValidString (name_at lib j)"
  proof (intro allI impI)
    fix j assume j: "0 \<le> j \<and> j \<le> i \<and> fully_readable lib j"
    show "ValidString (name_at lib j)"
    proof (cases "j = i")
      case True
      with ni vu show ?thesis by simp
    next
      case False
      with j assms(11) show ?thesis by simp
    qed
  qed
  have ds: "device_samples ?g lib i = six_samples ?g i ''unknown'' util temp mem"
    using assms(6-10) by (simp add: device_samples_def fully_readable_def device_name_def)
  have f: "filter (\<lambda>m. label m ''gpu_index'' = Some (Itoa i)) ?new =
             six_samples ?g i ''unknown'' util temp mem"
    using scrape_up_to [OF ok assms(2,4,5) names] ds by simp
  have l: "list_all (\<lambda>m. label m ''gpu_name'' = Some ''unknown'')
             (six_samples ?g i ''unknown'' util temp mem)"
    using label_six_samples [OF ok] by (auto simp: list_all_iff)
  have n: "length (six_samples ?g i ''unknown'' util temp mem) = 6"
    by (simp add: six_samples_def)
  from u s f l n show ?thesis
    by (intro exI [of _ st'] exI [of _ ?r] exI [of _ ?new]) simp
qed

theorem Update_unknown_name_witness:
  "self fresh = new_gpuCollector LegacyValidation ''node'' (Logger 0) \<and>
   descs_valid (self fresh) \<and>
   DeviceGetCount one_nameless_gpu = (1, SUCCESS) \<and> (0 :: int) \<le> 0 \<and> (0 :: int) < 1 \<and>
   DeviceGetHandleByIndex one_nameless_gpu 0 = (gpu_nameless, SUCCESS) \<and>
   snd (GetName gpu_nameless) \<noteq> SUCCESS \<and>
   GetUtilizationRates gpu_nameless = (\<lparr>Gpu = 50, Memory = 0\<rparr>, SUCCESS) \<and>
   GetTemperature gpu_nameless TEMPERATURE_GPU = (60, SUCCESS) \<and>
   GetMemoryInfo gpu_nameless = (\<lparr>Total = 100, Free = 60, Used = 40\<rparr>, SUCCESS) \<and>
   (\<exists>st' r new. Update one_nameless_gpu fresh = (st', r) \<and> sink st' = new \<and>
      map labelValues (filter (\<lambda>m. label m ''gpu_index'' = Some ''0'') new) =
        replicate 6 [''0'', ''unknown''])"
proof -
  have h1: "self fresh = new_gpuCollector LegacyValidation ''node'' (Logger 0)"
    by (simp add: fresh_def)
  note dv = fresh_descs_valid
  have h2: "DeviceGetCount one_nameless_gpu = (1, SUCCESS)"
    by (simp add: one_nameless_gpu_def)
  have h3: "(0 :: int) \<le> 0" and h4: "(0 :: int) < 1"
    by simp_all
  have h5: "DeviceGetHandleByIndex one_nameless_gpu 0 = (gpu_nameless, SUCCESS)"
    by (simp add: one_nameless_gpu_def)
  have h6: "snd (GetName gpu_nameless) \<noteq> SUCCESS"
    by (simp add: gpu_nameless_def SUCCESS_def)
  have h7: "GetUtilizationRates gpu_nameless = (\<lparr>Gpu = 50, Memory = 0\<rparr>, SUCCESS)"
    by (simp add: gpu_nameless_def gpuA_def)
  have h8: "GetTemperature gpu_nameless TEMPERATURE_GPU = (60, SUCCESS)"
    by (simp add: gpu_nameless_def gpuA_def)
  have h9: "GetMemoryInfo gpu_nameless = (\<lparr>Total = 100, Free = 60, Used = 40\<rparr>, SUCCESS)"
    by (simp add: gpu_nameless_def gpuA_def)
  have h10: "\<forall>j. 0 \<le> j \<and> j < 0 \<and> fully_readable one_nameless_gpu j \<longrightarrow>
               ValidString (name_at one_nameless_gpu j)"
    by auto
  have i0: "Itoa 0 = ''0''"
    by (simp add: Itoa_def digits_of.simps digit_char_def)
  from Update_unknown_name [OF h1 dv h2 h3 h4 h5 h6 h7 h8 h9 h10] obtain st' r new where
    u: "Update one_nameless_gpu fresh = (st', r)" and s: "sink st' = sink fresh @ new"
    and f: "filter (\<lambda>m. label m ''gpu_index'' = Some (Itoa 0)) new =
       six_samples (self fresh) 0 ''unknown'' \<lparr>Gpu = 50, Memory = 0\<rparr> 60
         \<lparr>Total = 100, Free = 60, Used = 40\<rparr>"
    by blast
  from s have s': "sink st' = new" by (simp add: fresh_def)
  from f have f': "map labelValues (filter (\<lambda>m. label m ''gpu_index'' = Some ''0'') new) =
        replicate 6 [''0'', ''unknown'']"
    by (simp add: i0 six_samples_def eval_nat_numeral)
  have "\<exists>st' r new. Update one_nameless_gpu fresh = (st', r) \<and> sink st' = new \<and>
      map labelValues (filter (\<lambda>m. label m ''gpu_index'' = Some ''0'') new) =
        replicate 6 [''0'', ''unknown'']"
    by (rule exI [of _ st'], rule exI [of _ r], rule exI [of _ new]) (intro conjI u s' f')
  with h1 dv h2 h3 h4 h5 h6 h7 h8 h9 show ?thesis by (intro conjI)
qed

theorem nameless_device_after_bad_name_gets_no_samples:
  "DeviceGetCount bad_name_then_nameless = (2, SUCCESS) \<and>
   DeviceGetHandleByIndex bad_name_then_nameless 1 = (gpu_nameless, SUCCESS) \<and>
   snd (GetName gpu_nameless) \<noteq> SUCCESS \<and> fully_readable bad_name_then_nameless 1 \<and>
   descs_valid (self fresh) \<and>
   snd (Update bad_name_then_nameless fresh) =
     Panicked (Panic ''label value is not valid UTF-8'') \<and>
   sink (fst (Update bad_name_then_nameless fresh)) = []"
proof -
  have u: "snd (Update bad_name_then_nameless fresh) =
             Panicked (Panic ''label value is not valid UTF-8'') \<and>
           sink (fst (Update bad_name_then_nameless fresh)) = []"
    by (simp add: Update_def bad_name_then_nameless_def loop.simps loop_body_def called_def
          write_log_def gpu_bad_name_def gpuA_def export_metrics_def send_def and_then_def
          MustNewConstMetric_def Let_def fresh_def new_gpuCollector_def NewDesc_def
          BuildFQName_def gpuCollectorSubsystem_def IsValidMetricName_def
          IsValidLegacyMetricName_def is_letter_def is_digit_def checkLabelName_def
          IsValidLabelName_def ValidString_def utf8_step_def SUCCESS_def TEMPERATURE_GPU_def)
  have c: "DeviceGetCount bad_name_then_nameless = (2, SUCCESS)"
    by (simp add: bad_name_then_nameless_def)
  have h: "DeviceGetHandleByIndex bad_name_then_nameless 1 = (gpu_nameless, SUCCESS)"
    by (simp add: bad_name_then_nameless_def)
  have n: "snd (GetName gpu_nameless) \<noteq> SUCCESS"
    by (simp add: gpu_nameless_def SUCCESS_def)
  have r: "fully_readable bad_name_then_nameless 1"
    by (simp add: fully_readable_def bad_name_then_nameless_def gpu_nameless_def gpuA_def)
  from c h n r fresh_descs_valid u show ?thesis by (intro conjI) simp_all
qed

text \<open>
  C6. For a non-empty namespace the names of the six descriptors of the
  collector are the namespace followed by \<^verbatim>\<open>_gpu_utilisation_percentage\<close>,
  \<^verbatim>\<open>_gpu_temperature_celsius\<close>, \<^verbatim>\<open>_gpu_memory_total_bytes\<close>,
  \<^verbatim>\<open>_gpu_memory_used_bytes\<close>, \<^verbatim>\<open>_gpu_memory_free_bytes\<close> and
  \<^verbatim>\<open>_gpu_info\<close>. However a scrape ends, every sample it sent bears one of
  these six names and carries exactly the label keys \<^verbatim>\<open>gpu_index\<close> and
  \<^verbatim>\<open>gpu_name\<close>. And the six names are all used: a fully readable device
  below the count, reached without a refusal by the client, sends six samples
  bearing the six names in this order.
\<close>

theorem metric_names_and_label_keys:
  assumes "nspace \<noteq> []" and "self st = new_gpuCollector scheme nspace lg"
  shows "map fqName (descs (self st)) =
           [nspace @ ''_gpu_utilisation_percentage'', nspace @ ''_gpu_temperature_celsius'',
            nspace @ ''_gpu_memory_total_bytes'', nspace @ ''_gpu_memory_used_bytes'',
            nspace @ ''_gpu_memory_free_bytes'', nspace @ ''_gpu_info''] \<and>
         (\<exists>st' r new. Update lib st = (st', r) \<and> sink st' = sink st @ new \<and>
            list_all (\<lambda>m. fqName (desc m) \<in> set (map fqName (descs (self st))) \<and>
                           label_keys m = [''gpu_index'', ''gpu_name'']) new \<and>
            (\<forall>count i. DeviceGetCount lib = (count, SUCCESS) \<and> 0 \<le> i \<and> i < count \<and>
                 fully_readable lib i \<and> descs_valid (self st) \<and>
                 (\<forall>j. 0 \<le> j \<and> j \<le> i \<and> fully_readable lib j \<longrightarrow>
                      ValidString (name_at lib j)) \<longrightarrow>
               map (\<lambda>m. fqName (desc m))
                 (filter (\<lambda>m. label m ''gpu_index'' = Some (Itoa i)) new) =
               map fqName (descs (self st))))"
proof -
  let ?g = "self st"
  let ?new = "sent ?g lib (scrape_indices lib)"
  have ok: "descs_ok ?g" using assms(2) by (simp add: descs_ok_new)
  from Update_eq [of lib st] obtain st' where
    u: "Update lib st = (st', outcome ?g lib)" and s: "sink st' = sink st @ ?new"
    by blast
  have a: "list_all (\<lambda>m. fqName (desc m) \<in> set (map fqName (descs ?g)) \<and>
                           label_keys m = [''gpu_index'', ''gpu_name'']) ?new"
  proof -
    have "fqName (desc m) \<in> set (map fqName (descs ?g)) \<and>
          label_keys m = [''gpu_index'', ''gpu_name'']" if "m \<in> set ?new" for m
    proof -
      from sent_origin [OF that] obtain j where
        m: "m \<in> set (device_samples ?g lib j)" by blast
      from desc_device_samples [OF m] label_keys_device_samples [OF ok m]
      show ?thesis by simp
    qed
    then show ?thesis by (simp add: list_all_iff)
  qed
  have b: "map (\<lambda>m. fqName (desc m))
             (filter (\<lambda>m. label m ''gpu_index'' = Some (Itoa i)) ?new) =
           map fqName (descs ?g)"
    if c: "DeviceGetCount lib = (count, SUCCESS)" and i0: "0 \<le> i" and ic: "i < count"
      and fr: "fully_readable lib i" and dv: "descs_valid ?g"
      and nm: "\<forall>j. 0 \<le> j \<and> j \<le> i \<and> fully_readable lib j \<longrightarrow> ValidString (name_at lib j)"
    for count i
  proof -
    from i0 ic have nz: "count \<noteq> 0" by simp
    from scrape_up_to [OF ok dv i0 ic nm] scrape_indices_ok [OF c nz]
    have "filter (\<lambda>m. label m ''gpu_index'' = Some (Itoa i)) ?new = device_samples ?g lib i"
      by simp
    moreover from fr have "map desc (device_samples ?g lib i) = descs ?g"
      by (simp add: device_samples_def six_samples_def descs_def Let_def)
    then have "map (\<lambda>m. fqName (desc m)) (device_samples ?g lib i) = map fqName (descs ?g)"
      by (metis (no_types, lifting) map_map comp_apply map_cong)
    ultimately show ?thesis by simp
  qed
  from fqNames_new [OF assms(1), of scheme lg] assms(2) have n: "map fqName (descs ?g) =
           [nspace @ ''_gpu_utilisation_percentage'', nspace @ ''_gpu_temperature_celsius'',
            nspace @ ''_gpu_memory_total_bytes'', nspace @ ''_gpu_memory_used_bytes'',
            nspace @ ''_gpu_memory_free_bytes'', nspace @ ''_gpu_info'']"
    by simp
  have "\<exists>st' r new. Update lib st = (st', r) \<and> sink st' = sink st @ new \<and>
            list_all (\<lambda>m. fqName (desc m) \<in> set (map fqName (descs ?g)) \<and>
                           label_keys m = [''gpu_index'', ''gpu_name'']) new \<and>
            (\<forall>count i. DeviceGetCount lib = (count, SUCCESS) \<and> 0 \<le> i \<and> i < count \<and>
                 fully_readable lib i \<and> descs_valid ?g \<and>
                 (\<forall>j. 0 \<le> j \<and> j \<le> i \<and> fully_readable lib j \<longrightarrow>
                      ValidString (name_at lib j)) \<longrightarrow>
               map (\<lambda>m. fqName (desc m))
                 (filter (\<lambda>m. label m ''gpu_index'' = Some (Itoa i)) new) =
               map fqName (descs ?g))"
    by (rule exI [of _ st'], rule exI [of _ "outcome ?g lib"], rule exI [of _ ?new])
       (use u s a b in blast)
  with n show ?thesis by (rule conjI)
qed

theorem metric_names_and_label_keys_witness:
  "''node'' \<noteq> [] \<and> self fresh = new_gpuCollector LegacyValidation ''node'' (Logger 0) \<and>
   DeviceGetCount two_gpus = (2, SUCCESS) \<and> (0 :: int) \<le> 1 \<and> (1 :: int) < 2 \<and>
   fully_readable two_gpus 1 \<and> descs_valid (self fresh) \<and>
   ValidString (name_at two_gpus 0) \<and> ValidString (name_at two_gpus 1) \<and>
   map fqName (descs (self fresh)) =
     [''node_gpu_utilisation_percentage'', ''node_gpu_temperature_celsius'',
      ''node_gpu_memory_total_bytes'', ''node_gpu_memory_used_bytes'',
      ''node_gpu_memory_free_bytes'', ''node_gpu_info''] \<and>
   (\<exists>st' r new. Update two_gpus fresh = (st', r) \<and> sink st' = new \<and>
      list_all (\<lambda>m. label_keys m = [''gpu_index'', ''gpu_name'']) new \<and>
      map (\<lambda>m. fqName (desc m)) (filter (\<lambda>m. label m ''gpu_index'' = Some ''1'') new) =
        [''node_gpu_utilisation_percentage'', ''node_gpu_temperature_celsius'',
         ''node_gpu_memory_total_bytes'', ''node_gpu_memory_used_bytes'',
         ''node_gpu_memory_free_bytes'', ''node_gpu_info''])"
proof -
  have h1: "''node'' \<noteq> []" by simp
  have h2: "self fresh = new_gpuCollector LegacyValidation ''node'' (Logger 0)"
    by (simp add: fresh_def)
  have c: "DeviceGetCount two_gpus = (2, SUCCESS)"
    by (simp add: two_gpus_def)
  have i0: "(0 :: int) \<le> 1" and i2: "(1 :: int) < 2" by simp_all
  have r0: "fully_readable two_gpus 0" and r1: "fully_readable two_gpus 1"
    by (simp_all add: fully_readable_def two_gpus_def gpuA_def gpuB_def)
  note dv = fresh_descs_valid
  have v0: "ValidString (name_at two_gpus 0)" and v1: "ValidString (name_at two_gpus 1)"
    by (simp_all add: name_at_def device_name_def two_gpus_def gpuA_def gpuB_def
          ValidString_def utf8_step_def)
  have nm: "\<forall>j. 0 \<le> j \<and> j \<le> 1 \<and> fully_readable two_gpus j \<longrightarrow>
              ValidString (name_at two_gpus j)"
  proof (intro allI impI)
    fix j :: int assume "0 \<le> j \<and> j \<le> 1 \<and> fully_readable two_gpus j"
    then have "j = 0 \<or> j = 1" by arith
    with v0 v1 show "ValidString (name_at two_gpus j)" by auto
  qed
  have i1: "Itoa 1 = ''1''"
    by (simp add: Itoa_def digits_of.simps digit_char_def)
  note inst = metric_names_and_label_keys [OF h1 h2, of two_gpus]
  from inst have n: "map fqName (descs (self fresh)) =
     [''node_gpu_utilisation_percentage'', ''node_gpu_temperature_celsius'',
      ''node_gpu_memory_total_bytes'', ''node_gpu_memory_used_bytes'',
      ''node_gpu_memory_free_bytes'', ''node_gpu_info'']"
    by simp
  from inst obtain st' r new where
    u: "Update two_gpus fresh = (st', r)" and s: "sink st' = sink fresh @ new"
    and k: "list_all (\<lambda>m. fqName (desc m) \<in> set (map fqName (descs (self fresh))) \<and>
                           label_keys m = [''gpu_index'', ''gpu_name'']) new"
    and a: "\<forall>count i. DeviceGetCount two_gpus = (count, SUCCESS) \<and> 0 \<le> i \<and> i < count \<and>
                 fully_readable two_gpus i \<and> descs_valid (self fresh) \<and>
                 (\<forall>j. 0 \<le> j \<and> j \<le> i \<and> fully_readable two_gpus j \<longrightarrow>
                      ValidString (name_at two_gpus j)) \<longrightarrow>
               map (\<lambda>m. fqName (desc m))
                 (filter (\<lambda>m. label m ''gpu_index'' = Some (Itoa i)) new) =
               map fqName (descs (self fresh))"
    by blast
  from s have s': "sink st' = new" by (simp add: fresh_def)
  from k have k': "list_all (\<lambda>m. label_keys m = [''gpu_index'', ''gpu_name'']) new"
    by (simp add: list_all_iff)
  from a [rule_format, of 2 1] c i0 i2 r1 dv nm n have
    f: "map (\<lambda>m. fqName (desc m)) (filter (\<lambda>m. label m ''gpu_index'' = Some ''1'') new) =
        [''node_gpu_utilisation_percentage'', ''node_gpu_temperature_celsius'',
         ''node_gpu_memory_total_bytes'', ''node_gpu_memory_used_bytes'',
         ''node_gpu_memory_free_bytes'', ''node_gpu_info'']"
    by (simp add: i1)
  have "\<exists>st' r new. Update two_gpus fresh = (st', r) \<and> sink st' = new \<and>
      list_all (\<lambda>m. label_keys m = [''gpu_index'', ''gpu_name'']) new \<and>
      map (\<lambda>m. fqName (desc m)) (filter (\<lambda>m. label m ''gpu_index'' = Some ''1'') new) =
        [''node_gpu_utilisation_percentage'', ''node_gpu_temperature_celsius'',
         ''node_gpu_memory_total_bytes'', ''node_gpu_memory_used_bytes'',
         ''node_gpu_memory_free_bytes'', ''node_gpu_info'']"
    by (rule exI [of _ st'], rule exI [of _ r], rule exI [of _ new]) (intro conjI u s' k' f)
  with h1 h2 c i0 i2 r1 dv v0 v1 n show ?thesis by (intro conjI)
qed

text \<open>
  C7. \<open>NewGPUCollector\<close> returns an error and no collector when \<open>Init\<close> does
  not answer \<open>SUCCESS\<close>. When it does, the result is a collector holding the
  given logger and the six descriptors, pairwise different, each with the label
  names \<^verbatim>\<open>gpu_index\<close> and \<^verbatim>\<open>gpu_name\<close>. In both cases the only call made
  into the library is \<open>Init\<close>: no device is counted or opened. Every
  \<open>Update\<close> on the collector built, however it ends, begins by asking for the
  device count.
\<close>

theorem NewGPUCollector_contract:
  "(Init lib \<noteq> SUCCESS \<longrightarrow>
      (\<exists>e. NewGPUCollector scheme nspace lib lg tr = (tr @ [CallInit], Inl e))) \<and>
   (Init lib = SUCCESS \<longrightarrow>
      (\<exists>g. NewGPUCollector scheme nspace lib lg tr = (tr @ [CallInit], Inr g) \<and>
           logger g = lg \<and>
           descs g =
             [NewDesc scheme (BuildFQName nspace ''gpu'' ''utilisation_percentage'')
                ''GPU utilisation in percent.'' [''gpu_index'', ''gpu_name''] [],
              NewDesc scheme (BuildFQName nspace ''gpu'' ''temperature_celsius'')
                ''GPU temperature in Celsius.'' [''gpu_index'', ''gpu_name''] [],
              NewDesc scheme (BuildFQName nspace ''gpu'' ''memory_total_bytes'')
                ''Total GPU memory in bytes.'' [''gpu_index'', ''gpu_name''] [],
              NewDesc scheme (BuildFQName nspace ''gpu'' ''memory_used_bytes'')
                ''Used GPU memory in bytes.'' [''gpu_index'', ''gpu_name''] [],
              NewDesc scheme (BuildFQName nspace ''gpu'' ''memory_free_bytes'')
                ''Free GPU memory in bytes.'' [''gpu_index'', ''gpu_name''] [],
              NewDesc scheme (BuildFQName nspace ''gpu'' ''info'')
                ''Static GPU information (e.g. index and name).''
                [''gpu_index'', ''gpu_name''] []] \<and>
           distinct (descs g) \<and>
           (\<forall>st. self st = g \<longrightarrow>
              (\<exists>st' r cs. Update lib' st = (st', r) \<and>
                 calls st' = calls st @ CallDeviceGetCount # cs)))) \<and>
   fst (NewGPUCollector scheme nspace lib lg tr) = tr @ [CallInit]"
proof -
  have d: "distinct (descs (new_gpuCollector scheme nspace lg))"
    by (simp add: descs_def new_gpuCollector_def NewDesc_def BuildFQName_def)
  have u: "\<exists>st' r cs. Update lib' st = (st', r) \<and>
                 calls st' = calls st @ CallDeviceGetCount # cs" for st
    using Update_eq [of lib' st] by blast
  have e: "descs (new_gpuCollector scheme nspace lg) =
             [NewDesc scheme (BuildFQName nspace ''gpu'' ''utilisation_percentage'')
                ''GPU utilisation in percent.'' [''gpu_index'', ''gpu_name''] [],
              NewDesc scheme (BuildFQName nspace ''gpu'' ''temperature_celsius'')
                ''GPU temperature in Celsius.'' [''gpu_index'', ''gpu_name''] [],
              NewDesc scheme (BuildFQName nspace ''gpu'' ''memory_total_bytes'')
                ''Total GPU memory in bytes.'' [''gpu_index'', ''gpu_name''] [],
              NewDesc scheme (BuildFQName nspace ''gpu'' ''memory_used_bytes'')
                ''Used GPU memory in bytes.'' [''gpu_index'', ''gpu_name''] [],
              NewDesc scheme (BuildFQName nspace ''gpu'' ''memory_free_bytes'')
                ''Free GPU memory in bytes.'' [''gpu_index'', ''gpu_name''] [],
              NewDesc scheme (BuildFQName nspace ''gpu'' ''info'')
                ''Static GPU information (e.g. index and name).''
                [''gpu_index'', ''gpu_name''] []]"
    by (simp add: descs_def new_gpuCollector_def gpuCollectorSubsystem_def)
  have l: "logger (new_gpuCollector scheme nspace lg) = lg"
    by (simp add: new_gpuCollector_def)
  show ?thesis
  proof (intro conjI impI)
    assume "Init lib \<noteq> SUCCESS"
    then show "\<exists>e. NewGPUCollector scheme nspace lib lg tr = (tr @ [CallInit], Inl e)"
      by (simp add: NewGPUCollector_def Let_def)
  next
    assume "Init lib = SUCCESS"
    then have "NewGPUCollector scheme nspace lib lg tr =
                 (tr @ [CallInit], Inr (new_gpuCollector scheme nspace lg))"
      by (simp add: NewGPUCollector_def Let_def)
    with l e d u show "\<exists>g. NewGPUCollector scheme nspace lib lg tr = (tr @ [CallInit], Inr g) \<and>
           logger g = lg \<and>
           descs g =
             [NewDesc scheme (BuildFQName nspace ''gpu'' ''utilisation_percentage'')
                ''GPU utilisation in percent.'' [''gpu_index'', ''gpu_name''] [],
              NewDesc scheme (BuildFQName nspace ''gpu'' ''temperature_celsius'')
                ''GPU temperature in Celsius.'' [''gpu_index'', ''gpu_name''] [],
              NewDesc scheme (BuildFQName nspace ''gpu'' ''memory_total_bytes'')
                ''Total GPU memory in bytes.'' [''gpu_index'', ''gpu_name''] [],
              NewDesc scheme (BuildFQName nspace ''gpu'' ''memory_used_bytes'')
                ''Used GPU memory in bytes.'' [''gpu_index'', ''gpu_name''] [],
              NewDesc scheme (BuildFQName nspace ''gpu'' ''memory_free_bytes'')
                ''Free GPU memory in bytes.'' [''gpu_index'', ''gpu_name''] [],
              NewDesc scheme (BuildFQName nspace ''gpu'' ''info'')
                ''Static GPU information (e.g. index and name).''
                [''gpu_index'', ''gpu_name''] []] \<and>
           distinct (descs g) \<and>
           (\<forall>st. self st = g \<longrightarrow>
              (\<exists>st' r cs. Update lib' st = (st', r) \<and>
                 calls st' = calls st @ CallDeviceGetCount # cs))"
      by (intro exI [of _ "new_gpuCollector scheme nspace lg"]) simp
  next
    show "fst (NewGPUCollector scheme nspace lib lg tr) = tr @ [CallInit]"
      by (simp add: NewGPUCollector_def Let_def)
  qed
qed

theorem NewGPUCollector_contract_witness:
  "Init init_fails \<noteq> SUCCESS \<and>
   (\<exists>e. NewGPUCollector LegacyValidation ''node'' init_fails (Logger 0) [] =
          ([CallInit], Inl e)) \<and>
   Init two_gpus = SUCCESS \<and>
   (\<exists>g. NewGPUCollector LegacyValidation ''node'' two_gpus (Logger 0) [] =
          ([CallInit], Inr g) \<and>
        self fresh = g \<and>
        (\<exists>st' r cs. Update bad_name_first fresh = (st', r) \<and>
           calls st' = CallDeviceGetCount # cs))"
proof -
  have h1: "Init init_fails \<noteq> SUCCESS"
    by (simp add: init_fails_def two_gpus_def SUCCESS_def)
  have h2: "Init two_gpus = SUCCESS"
    by (simp add: two_gpus_def)
  from NewGPUCollector_contract
         [of init_fails LegacyValidation "''node''" "Logger 0" "[]" bad_name_first] h1
  have a: "\<exists>e. NewGPUCollector LegacyValidation ''node'' init_fails (Logger 0) [] =
                ([CallInit], Inl e)"
    by simp
  from NewGPUCollector_contract
         [of two_gpus LegacyValidation "''node''" "Logger 0" "[]" bad_name_first] h2
  obtain g where
    g: "NewGPUCollector LegacyValidation ''node'' two_gpus (Logger 0) [] =
          ([] @ [CallInit], Inr g)"
    and u: "\<forall>st. self st = g \<longrightarrow>
              (\<exists>st' r cs. Update bad_name_first st = (st', r) \<and>
                 calls st' = calls st @ CallDeviceGetCount # cs)"
    by blast
  from g have g': "NewGPUCollector LegacyValidation ''node'' two_gpus (Logger 0) [] =
      ([CallInit], Inr g)"
    by simp
  from g have sg: "self fresh = g"
    by (simp add: NewGPUCollector_def Let_def two_gpus_def fresh_def)
  from u [rule_format, OF sg] have
    c: "\<exists>st' r cs. Update bad_name_first fresh = (st', r) \<and>
          calls st' = CallDeviceGetCount # cs"
    by (simp add: fresh_def)
  have b: "\<exists>g. NewGPUCollector LegacyValidation ''node'' two_gpus (Logger 0) [] =
          ([CallInit], Inr g) \<and>
        self fresh = g \<and>
        (\<exists>st' r cs. Update bad_name_first fresh = (st', r) \<and>
           calls st' = CallDeviceGetCount # cs)"
    by (rule exI [of _ g]) (intro conjI g' sg c)
  from h1 a h2 b show ?thesis by (intro conjI)
qed

text \<open>
  C8. Every invocation of \<open>Update\<close>, whether it returns or panics, leaves the
  receiver as it was: the state afterwards is the state before with samples
  appended to the channel and entries appended to the log (and the calls made
  appended to the record of library calls, which is bookkeeping of this
  development and no state of the program). The logger and the six
  descriptors are those the receiver had before, hence those set at
  construction.
\<close>

theorem Update_changes_only_sink_and_log:
  "\<exists>st' r new ls cs. Update lib st = (st', r) \<and>
     st' = st\<lparr>sink := sink st @ new, logged := logged st @ ls, calls := calls st @ cs\<rparr> \<and>
     self st' = self st \<and> descs (self st') = descs (self st) \<and>
     logger (self st') = logger (self st)"
proof -
  from Update_eq [of lib st] obtain st' ls where
    u: "Update lib st = (st', outcome (self st) lib)" and g: "self st' = self st"
    and s: "sink st' = sink st @ sent (self st) lib (scrape_indices lib)"
    and l: "logged st' = logged st @ ls"
    and c: "calls st' = calls st @ CallDeviceGetCount #
       concat (map (device_calls lib) (begun (self st) lib (scrape_indices lib)))"
    by blast
  from g s l c have e: "st' = st\<lparr>sink := sink st @ sent (self st) lib (scrape_indices lib),
      logged := logged st @ ls,
      calls := calls st @ CallDeviceGetCount #
        concat (map (device_calls lib) (begun (self st) lib (scrape_indices lib)))\<rparr>"
    by simp
  from g have d: "descs (self st') = descs (self st)"
    and lgr: "logger (self st') = logger (self st)"
    by simp_all
  show ?thesis
    by (rule exI [of _ st'], rule exI [of _ "outcome (self st) lib"],
        rule exI [of _ "sent (self st) lib (scrape_indices lib)"], rule exI [of _ ls],
        rule exI [of _ "CallDeviceGetCount #
          concat (map (device_calls lib) (begun (self st) lib (scrape_indices lib)))"])
       (intro conjI u e g d lgr)
qed

theorem Update_changes_only_sink_and_log_witness:
  "snd (Update bad_name_first fresh) = Panicked (Panic ''label value is not valid UTF-8'') \<and>
   (\<exists>st' r new ls cs. Update bad_name_first fresh = (st', r) \<and>
      st' = fresh\<lparr>sink := new, logged := ls, calls := cs\<rparr> \<and>
      self st' = new_gpuCollector LegacyValidation ''node'' (Logger 0)) \<and>
   (\<exists>st' r new ls cs. Update first_gpu_no_temperature scraped_once = (st', r) \<and>
      st' = scraped_once\<lparr>sink := sink scraped_once @ new, logged := ls,
                          calls := [CallInit, CallDeviceGetCount] @ cs\<rparr> \<and>
      self st' = new_gpuCollector LegacyValidation ''node'' (Logger 0))"
proof -
  have p: "snd (Update bad_name_first fresh) =
             Panicked (Panic ''label value is not valid UTF-8'')"
    by (simp add: bad_name_first_run)
  from Update_changes_only_sink_and_log [of bad_name_first fresh]
  obtain st' r new ls cs where
    u: "Update bad_name_first fresh = (st', r)"
    and e: "st' = fresh\<lparr>sink := sink fresh @ new, logged := logged fresh @ ls,
                         calls := calls fresh @ cs\<rparr>"
    and g: "self st' = self fresh"
    by blast
  from e have e': "st' = fresh\<lparr>sink := new, logged := ls, calls := cs\<rparr>"
    by (simp add: fresh_def)
  from g have g': "self st' = new_gpuCollector LegacyValidation ''node'' (Logger 0)"
    by (simp add: fresh_def)
  have a: "\<exists>st' r new ls cs. Update bad_name_first fresh = (st', r) \<and>
      st' = fresh\<lparr>sink := new, logged := ls, calls := cs\<rparr> \<and>
      self st' = new_gpuCollector LegacyValidation ''node'' (Logger 0)"
    by (rule exI [of _ st'], rule exI [of _ r], rule exI [of _ new], rule exI [of _ ls],
        rule exI [of _ cs]) (intro conjI u e' g')
  from Update_changes_only_sink_and_log [of first_gpu_no_temperature scraped_once]
  obtain st2 r2 new2 ls2 cs2 where
    u2: "Update first_gpu_no_temperature scraped_once = (st2, r2)"
    and e2: "st2 = scraped_once\<lparr>sink := sink scraped_once @ new2,
               logged := logged scraped_once @ ls2, calls := calls scraped_once @ cs2\<rparr>"
    and g2: "self st2 = self scraped_once"
    by blast
  from e2 have e2': "st2 = scraped_once\<lparr>sink := sink scraped_once @ new2, logged := ls2,
                          calls := [CallInit, CallDeviceGetCount] @ cs2\<rparr>"
    by (simp add: scraped_once_def fresh_def)
  from g2 have g2': "self st2 = new_gpuCollector LegacyValidation ''node'' (Logger 0)"
    by (simp add: scraped_once_def fresh_def)
  have b: "\<exists>st' r new ls cs. Update first_gpu_no_temperature scraped_once = (st', r) \<and>
      st' = scraped_once\<lparr>sink := sink scraped_once @ new, logged := ls,
                          calls := [CallInit, CallDeviceGetCount] @ cs\<rparr> \<and>
      self st' = new_gpuCollector LegacyValidation ''node'' (Logger 0)"
    by (rule exI [of _ st2], rule exI [of _ r2], rule exI [of _ new2], rule exI [of _ ls2],
        rule exI [of _ cs2]) (intro conjI u2 e2' g2')
  from p a b show ?thesis by (intro conjI)
qed

text \<open>
  C9. On a scrape that gets past the count, the handles are requested in
  ascending order for an initial stretch \<open>P\<close> of the indices
  \<open>0, \<dots>, count - 1\<close>, the whole of them when \<open>Update\<close> returns nil. The
  samples sent are the per-device batches of \<open>P\<close> concatenated in that same
  order, so the indices read back from the samples never decrease. What a
  device sends is an initial part of its batch: for a fully readable device
  the batch is the utilization, temperature, memory-total, memory-used,
  memory-free and info samples in this order, all with that device's index;
  any other device's batch is empty. When the descriptors passed validation
  and no readable device below the count has a name that is not valid UTF-8,
  \<open>Update\<close> returns nil and every batch is sent whole.
\<close>

theorem Update_emission_order:
  assumes "self st = new_gpuCollector scheme nspace lg"
    and "DeviceGetCount lib = (count, SUCCESS)" and "count \<noteq> 0"
  shows "\<exists>st' r new cs P rest. Update lib st = (st', r) \<and>
     sink st' = sink st @ new \<and> calls st' = calls st @ cs \<and>
     [0..count - 1] = P @ rest \<and> (r = Returned None \<longrightarrow> rest = []) \<and>
     filter is_handle_call cs = map CallDeviceGetHandleByIndex P \<and>
     new = concat (map (\<lambda>i. accepted (device_samples (self st) lib i)) P) \<and>
     sorted (map index_of new) \<and>
     (\<forall>i. \<exists>tail. device_samples (self st) lib i =
                    accepted (device_samples (self st) lib i) @ tail) \<and>
     (\<forall>i. if fully_readable lib i
          then map desc (device_samples (self st) lib i) =
                 [gpuUtilizationDesc (self st), gpuTemperatureDesc (self st),
                  gpuMemoryTotalDesc (self st), gpuMemoryUsedDesc (self st),
                  gpuMemoryFreeDesc (self st), gpuInfoDesc (self st)] \<and>
               map index_of (device_samples (self st) lib i) = replicate 6 i
          else device_samples (self st) lib i = []) \<and>
     (descs_valid (self st) \<and>
      (\<forall>j. 0 \<le> j \<and> j < count \<and> fully_readable lib j \<longrightarrow> ValidString (name_at lib j)) \<longrightarrow>
        r = Returned None \<and>
        new = concat (map (device_samples (self st) lib) [0..count - 1]))"
proof -
  let ?g = "self st"
  let ?xs = "[0..count - 1]"
  let ?P = "begun ?g lib ?xs"
  let ?new = "sent ?g lib ?xs"
  let ?cs = "CallDeviceGetCount # concat (map (device_calls lib) ?P)"
  let ?r = "ending (first_refusal ?g lib ?xs)"
  have ok: "descs_ok ?g" using assms(1) by (simp add: descs_ok_new)
  from Update_spec [OF assms(2,3), of st] obtain st' where
    u: "Update lib st = (st', ?r)" and s: "sink st' = sink st @ ?new"
    and c: "calls st' = calls st @ ?cs"
    by blast
  from begun_initial [of ?xs ?g lib] obtain rest where sp: "?xs = ?P @ rest" ..
  have whole: "rest = []" if "?r = Returned None"
  proof -
    from that have "first_refusal ?g lib ?xs = None"
      by (simp add: ending_def split: option.splits)
    then have "?P = ?xs" by (rule first_refusal_None_begun)
    with sp show ?thesis by simp
  qed
  have f: "filter is_handle_call ?cs = map CallDeviceGetHandleByIndex ?P"
    by (simp add: filter_handle_calls is_handle_call_def)
  have n: "?new = concat (map (\<lambda>i. accepted (device_samples ?g lib i)) ?P)"
    by (simp add: sent_def)
  have so: "sorted (map index_of ?new)"
    by (rule sorted_sent) simp
  have ini: "\<exists>tail. device_samples ?g lib i = accepted (device_samples ?g lib i) @ tail" for i
    by (rule accepted_initial)
  have per: "if fully_readable lib i
          then map desc (device_samples ?g lib i) =
                 [gpuUtilizationDesc ?g, gpuTemperatureDesc ?g,
                  gpuMemoryTotalDesc ?g, gpuMemoryUsedDesc ?g,
                  gpuMemoryFreeDesc ?g, gpuInfoDesc ?g] \<and>
               map index_of (device_samples ?g lib i) = replicate 6 i
          else device_samples ?g lib i = []" for i
    by (simp add: device_samples_def six_samples_def Let_def index_of_def Atoi_Itoa
          eval_nat_numeral)
  have clean: "?r = Returned None \<and> ?new = concat (map (device_samples ?g lib) ?xs)"
    if dv: "descs_valid ?g"
      and nm: "\<forall>j. 0 \<le> j \<and> j < count \<and> fully_readable lib j \<longrightarrow> ValidString (name_at lib j)"
  proof -
    have "refusal (device_samples ?g lib j) = None" if "j \<in> set ?xs" for j
      using that nm by (intro refusal_device_samples [OF ok dv]) simp
    from begun_all [of ?xs ?g lib, OF this] show ?thesis by (simp add: ending_def)
  qed
  show ?thesis
    by (rule exI [of _ st'], rule exI [of _ ?r], rule exI [of _ ?new], rule exI [of _ ?cs],
        rule exI [of _ ?P], rule exI [of _ rest])
       (use u s c sp whole f n so ini per clean in blast)
qed

theorem Update_emission_order_witness:
  "self fresh = new_gpuCollector LegacyValidation ''node'' (Logger 0) \<and>
   DeviceGetCount two_gpus = (2, SUCCESS) \<and> (2 :: int) \<noteq> 0 \<and>
   fully_readable two_gpus 0 \<and> fully_readable two_gpus 1 \<and>
   descs_valid (self fresh) \<and>
   ValidString (name_at two_gpus 0) \<and> ValidString (name_at two_gpus 1) \<and>
   (\<exists>st' new cs. Update two_gpus fresh = (st', Returned None) \<and>
      sink st' = new \<and> calls st' = cs \<and>
      filter is_handle_call cs = [CallDeviceGetHandleByIndex 0, CallDeviceGetHandleByIndex 1] \<and>
      map index_of new = replicate 6 0 @ replicate 6 1 \<and>
      map desc new = descs (self fresh) @ descs (self fresh))"
proof -
  have h1: "self fresh = new_gpuCollector LegacyValidation ''node'' (Logger 0)"
    by (simp add: fresh_def)
  have h2: "DeviceGetCount two_gpus = (2, SUCCESS)"
    by (simp add: two_gpus_def)
  have h3: "(2 :: int) \<noteq> 0" by simp
  have r0: "fully_readable two_gpus 0" and r1: "fully_readable two_gpus 1"
    by (simp_all add: fully_readable_def two_gpus_def gpuA_def gpuB_def)
  note dv = fresh_descs_valid
  have v0: "ValidString (name_at two_gpus 0)" and v1: "ValidString (name_at two_gpus 1)"
    by (simp_all add: name_at_def device_name_def two_gpus_def gpuA_def gpuB_def
          ValidString_def utf8_step_def)
  have nm: "\<forall>j. 0 \<le> j \<and> j < 2 \<and> fully_readable two_gpus j \<longrightarrow>
              ValidString (name_at two_gpus j)"
  proof (intro allI impI)
    fix j :: int assume "0 \<le> j \<and> j < 2 \<and> fully_readable two_gpus j"
    then have "j = 0 \<or> j = 1" by arith
    with v0 v1 show "ValidString (name_at two_gpus j)" by auto
  qed
  have up: "[0..(1 :: int)] = [0, 1]" by (simp add: upto_rec1)
  from Update_emission_order [OF h1 h2 h3] obtain st' r new cs P rest where
    u: "Update two_gpus fresh = (st', r)"
    and s: "sink st' = sink fresh @ new" and c: "calls st' = calls fresh @ cs"
    and sp: "[0..2 - 1] = P @ rest" and wh: "r = Returned None \<longrightarrow> rest = []"
    and f: "filter is_handle_call cs = map CallDeviceGetHandleByIndex P"
    and per: "\<forall>i. if fully_readable two_gpus i
          then map desc (device_samples (self fresh) two_gpus i) =
                 [gpuUtilizationDesc (self fresh), gpuTemperatureDesc (self fresh),
                  gpuMemoryTotalDesc (self fresh), gpuMemoryUsedDesc (self fresh),
                  gpuMemoryFreeDesc (self fresh), gpuInfoDesc (self fresh)] \<and>
               map index_of (device_samples (self fresh) two_gpus i) = replicate 6 i
          else device_samples (self fresh) two_gpus i = []"
    and cl: "descs_valid (self fresh) \<and>
      (\<forall>j. 0 \<le> j \<and> j < 2 \<and> fully_readable two_gpus j \<longrightarrow>
           ValidString (name_at two_gpus j)) \<longrightarrow>
        r = Returned None \<and>
        new = concat (map (device_samples (self fresh) two_gpus) [0..2 - 1])"
    by blast
  from cl dv nm have rn: "r = Returned None"
    and n: "new = concat (map (device_samples (self fresh) two_gpus) [0..2 - 1])"
    by blast+
  from u rn have u': "Update two_gpus fresh = (st', Returned None)" by simp
  from wh rn sp have P: "P = [0, 1]" by (simp add: up)
  from s have s': "sink st' = new" by (simp add: fresh_def)
  from c have c': "calls st' = cs" by (simp add: fresh_def)
  from f P have f': "filter is_handle_call cs =
      [CallDeviceGetHandleByIndex 0, CallDeviceGetHandleByIndex 1]"
    by simp
  from per [rule_format, of 0] r0 have
    d0: "map desc (device_samples (self fresh) two_gpus 0) = descs (self fresh)"
    and x0: "map index_of (device_samples (self fresh) two_gpus 0) = replicate 6 0"
    by (simp_all add: descs_def)
  from per [rule_format, of 1] r1 have
    d1: "map desc (device_samples (self fresh) two_gpus 1) = descs (self fresh)"
    and x1: "map index_of (device_samples (self fresh) two_gpus 1) = replicate 6 1"
    by (simp_all add: descs_def)
  from n x0 x1 have x: "map index_of new = replicate 6 0 @ replicate 6 1"
    by (simp add: up)
  from n d0 d1 have d: "map desc new = descs (self fresh) @ descs (self fresh)"
    by (simp add: up)
  have "\<exists>st' new cs. Update two_gpus fresh = (st', Returned None) \<and>
      sink st' = new \<and> calls st' = cs \<and>
      filter is_handle_call cs = [CallDeviceGetHandleByIndex 0, CallDeviceGetHandleByIndex 1] \<and>
      map index_of new = replicate 6 0 @ replicate 6 1 \<and>
      map desc new = descs (self fresh) @ descs (self fresh)"
    by (rule exI [of _ st'], rule exI [of _ new], rule exI [of _ cs])
       (intro conjI u' s' c' f' x d)
  with h1 h2 h3 r0 r1 dv v0 v1 show ?thesis by (intro conjI)
qed

text \<open>
  C10. Two invocations of \<open>Update\<close> on the same collector, from any two
  states of channel, log and call record, against libraries that give the same
  count answer and the same handle answers for every index below the count,
  end the same way (the same return value, or the same panic), send the same
  sequence of samples and make the same sequence of library calls. What
  \<open>Init\<close> answered and what was sent or logged before play no part.
\<close>

theorem Update_deterministic:
  assumes "self st2 = self st1"
    and "DeviceGetCount lib1 = DeviceGetCount lib2"
    and "\<forall>i. 0 \<le> i \<and> i < fst (DeviceGetCount lib1) \<longrightarrow>
             DeviceGetHandleByIndex lib1 i = DeviceGetHandleByIndex lib2 i"
  shows "\<exists>st1' st2' r new cs. Update lib1 st1 = (st1', r) \<and> Update lib2 st2 = (st2', r) \<and>
           sink st1' = sink st1 @ new \<and> sink st2' = sink st2 @ new \<and>
           calls st1' = calls st1 @ cs \<and> calls st2' = calls st2 @ cs"
proof -
  let ?g = "self st1"
  let ?xs = "scrape_indices lib1"
  have xs: "scrape_indices lib2 = ?xs"
    using assms(2) by (simp add: scrape_indices_def)
  have inr: "0 \<le> i \<and> i < fst (DeviceGetCount lib1)" if "i \<in> set ?xs" for i
    using that by (cases "DeviceGetCount lib1") (auto simp: scrape_indices_def split: if_splits)
  have same: "device_samples ?g lib1 i = device_samples ?g lib2 i"
    and samec: "device_calls lib1 i = device_calls lib2 i" if "i \<in> set ?xs" for i
  proof -
    from inr [OF that] assms(3) have
      "DeviceGetHandleByIndex lib1 i = DeviceGetHandleByIndex lib2 i" by simp
    then show "device_samples ?g lib1 i = device_samples ?g lib2 i"
      and "device_calls lib1 i = device_calls lib2 i"
      by (simp_all add: device_samples_def fully_readable_def device_calls_def)
  qed
  from begun_cong [of ?xs ?g lib1 lib2, OF same] have
    b: "begun ?g lib1 ?xs = begun ?g lib2 ?xs"
    and fr: "first_refusal ?g lib1 ?xs = first_refusal ?g lib2 ?xs"
    and se: "sent ?g lib1 ?xs = sent ?g lib2 ?xs"
    by simp_all
  have o: "outcome ?g lib2 = outcome ?g lib1"
  proof (cases "DeviceGetCount lib1")
    case (Pair count ret)
    with assms(2) have c2: "DeviceGetCount lib2 = (count, ret)" by simp
    show ?thesis
    proof (cases "ret \<noteq> SUCCESS \<or> count = 0")
      case True
      with Pair c2 show ?thesis by (auto simp: outcome_def)
    next
      case False
      with Pair have "?xs = [0..count - 1]" by (simp add: scrape_indices_def)
      with fr False Pair c2 show ?thesis by (simp add: outcome_def)
    qed
  qed
  have cc: "concat (map (device_calls lib2) (begun ?g lib1 ?xs)) =
            concat (map (device_calls lib1) (begun ?g lib1 ?xs))"
  proof -
    have "map (device_calls lib2) (begun ?g lib1 ?xs) =
          map (device_calls lib1) (begun ?g lib1 ?xs)"
      by (rule map_cong [OF refl]) (simp add: samec set_begun)
    then show ?thesis by (rule arg_cong)
  qed
  from Update_eq [of lib1 st1] obtain st1' where
    a: "Update lib1 st1 = (st1', outcome ?g lib1)"
    and a1: "sink st1' = sink st1 @ sent ?g lib1 ?xs"
    and a2: "calls st1' = calls st1 @ CallDeviceGetCount #
               concat (map (device_calls lib1) (begun ?g lib1 ?xs))"
    by blast
  from Update_eq [of lib2 st2] assms(1) xs o b se cc obtain st2' where
    b0: "Update lib2 st2 = (st2', outcome ?g lib1)"
    and b1: "sink st2' = sink st2 @ sent ?g lib1 ?xs"
    and b2: "calls st2' = calls st2 @ CallDeviceGetCount #
               concat (map (device_calls lib1) (begun ?g lib1 ?xs))"
    by auto
  show ?thesis
    by (rule exI [of _ st1'], rule exI [of _ st2'], rule exI [of _ "outcome ?g lib1"],
        rule exI [of _ "sent ?g lib1 ?xs"],
        rule exI [of _ "CallDeviceGetCount #
               concat (map (device_calls lib1) (begun ?g lib1 ?xs))"])
       (intro conjI a b0 a1 b1 a2 b2)
qed

theorem Update_deterministic_witness:
  "self scraped_once = self fresh \<and>
   DeviceGetCount two_gpus = DeviceGetCount init_fails \<and>
   DeviceGetHandleByIndex two_gpus = DeviceGetHandleByIndex init_fails \<and>
   Init two_gpus \<noteq> Init init_fails \<and> length (sink scraped_once) = 6 \<and>
   (\<exists>st1' st2' r new cs.
      Update two_gpus fresh = (st1', r) \<and> Update init_fails scraped_once = (st2', r) \<and>
      sink st1' = new \<and> sink st2' = sink scraped_once @ new \<and>
      calls st1' = cs \<and> calls st2' = [CallInit, CallDeviceGetCount] @ cs) \<and>
   (\<exists>st1' st2' new cs.
      Update bad_name_first fresh =
        (st1', Panicked (Panic ''label value is not valid UTF-8'')) \<and>
      Update bad_name_first scraped_once =
        (st2', Panicked (Panic ''label value is not valid UTF-8'')) \<and>
      sink st1' = new \<and> sink st2' = sink scraped_once @ new \<and>
      calls st1' = cs \<and> calls st2' = [CallInit, CallDeviceGetCount] @ cs)"
proof -
  have h2: "self scraped_once = self fresh"
    by (simp add: scraped_once_def)
  have h3: "DeviceGetCount two_gpus = DeviceGetCount init_fails"
    by (simp add: init_fails_def)
  have h4: "DeviceGetHandleByIndex two_gpus = DeviceGetHandleByIndex init_fails"
    by (simp add: init_fails_def)
  then have h4': "\<forall>i. 0 \<le> i \<and> i < fst (DeviceGetCount two_gpus) \<longrightarrow>
             DeviceGetHandleByIndex two_gpus i = DeviceGetHandleByIndex init_fails i"
    by simp
  have h5: "Init two_gpus \<noteq> Init init_fails"
    by (simp add: init_fails_def two_gpus_def SUCCESS_def)
  have h6: "length (sink scraped_once) = 6"
    by (simp add: scraped_once_def six_samples_def)
  from Update_deterministic [OF h2 h3 h4'] obtain st1' st2' r new cs where
    a: "Update two_gpus fresh = (st1', r)" and b: "Update init_fails scraped_once = (st2', r)"
    and a1: "sink st1' = sink fresh @ new" and b1: "sink st2' = sink scraped_once @ new"
    and a2: "calls st1' = calls fresh @ cs" and b2: "calls st2' = calls scraped_once @ cs"
    by blast
  from a1 have a1': "sink st1' = new" by (simp add: fresh_def)
  from a2 have a2': "calls st1' = cs" by (simp add: fresh_def)
  from b2 have b2': "calls st2' = [CallInit, CallDeviceGetCount] @ cs"
    by (simp add: scraped_once_def)
  have one: "\<exists>st1' st2' r new cs.
      Update two_gpus fresh = (st1', r) \<and> Update init_fails scraped_once = (st2', r) \<and>
      sink st1' = new \<and> sink st2' = sink scraped_once @ new \<and>
      calls st1' = cs \<and> calls st2' = [CallInit, CallDeviceGetCount] @ cs"
    by (rule exI [of _ st1'], rule exI [of _ st2'], rule exI [of _ r], rule exI [of _ new],
        rule exI [of _ cs]) (intro conjI a b a1' b1 a2' b2')
  have same: "\<forall>i. 0 \<le> i \<and> i < fst (DeviceGetCount bad_name_first) \<longrightarrow>
             DeviceGetHandleByIndex bad_name_first i = DeviceGetHandleByIndex bad_name_first i"
    by simp
  from Update_deterministic [OF h2 refl same] obtain t1 t2 q new2 cs2 where
    c: "Update bad_name_first fresh = (t1, q)"
    and d: "Update bad_name_first scraped_once = (t2, q)"
    and c1: "sink t1 = sink fresh @ new2" and d1: "sink t2 = sink scraped_once @ new2"
    and c2: "calls t1 = calls fresh @ cs2" and d2: "calls t2 = calls scraped_once @ cs2"
    by blast
  from c have q: "q = Panicked (Panic ''label value is not valid UTF-8'')"
    by (simp add: bad_name_first_run)
  from c1 have c1': "sink t1 = new2" by (simp add: fresh_def)
  from c2 have c2': "calls t1 = cs2" by (simp add: fresh_def)
  from d2 have d2': "calls t2 = [CallInit, CallDeviceGetCount] @ cs2"
    by (simp add: scraped_once_def)
  have two: "\<exists>st1' st2' new cs.
      Update bad_name_first fresh =
        (st1', Panicked (Panic ''label value is not valid UTF-8'')) \<and>
      Update bad_name_first scraped_once =
        (st2', Panicked (Panic ''label value is not valid UTF-8'')) \<and>
      sink st1' = new \<and> sink st2' = sink scraped_once @ new \<and>
      calls st1' = cs \<and> calls st2' = [CallInit, CallDeviceGetCount] @ cs"
    by (rule exI [of _ t1], rule exI [of _ t2], rule exI [of _ new2], rule exI [of _ cs2])
       (intro conjI c [unfolded q] d [unfolded q] c1' d1 c2' d2')
  from h2 h3 h4 h5 h6 one two show ?thesis by (intro conjI)
qed

end
